theory Spec2Isabelle
  imports Main "HOL-Library.Word" "HOL-Library.Sublist"
begin

section \<open>JavaScript strings\<close>

text \<open>
  A JavaScript string is a sequence of 16-bit code units. String literals of the source
  are written \<open>js ''...''\<close>; every literal of the modelled code is ASCII, or is spelled
  out code unit by code unit.
\<close>

type_synonym jsstring = "16 word list"

definition cu :: "char \<Rightarrow> 16 word" where
  "cu c = of_nat (of_char c)"

definition js :: "string \<Rightarrow> jsstring" where
  "js s = map cu s"

text \<open>
  \<open>String.prototype.trim\<close> removes the WhiteSpace and LineTerminator code points of
  ECMA-262 from both ends: TAB, LF, VT, FF, CR, SP, NBSP, the other space separators
  (category Zs), LS, PS and the byte order mark.
\<close>

definition isWhiteSpace :: "16 word \<Rightarrow> bool" where
  "isWhiteSpace c \<longleftrightarrow>
     c \<in> set [0x09, 0x0A, 0x0B, 0x0C, 0x0D, 0x20, 0xA0, 0x1680,
              0x2028, 0x2029, 0x202F, 0x205F, 0x3000, 0xFEFF]
     \<or> (0x2000 \<le> c \<and> c \<le> 0x200A)"

definition trim :: "jsstring \<Rightarrow> jsstring" where
  "trim s = rev (dropWhile isWhiteSpace (rev (dropWhile isWhiteSpace s)))"

definition startsWith :: "jsstring \<Rightarrow> jsstring \<Rightarrow> bool" where
  "startsWith s p = prefix p s"

definition endsWith :: "jsstring \<Rightarrow> jsstring \<Rightarrow> bool" where
  "endsWith s p = suffix p s"

text \<open>\<open>s.split(sep)\<close> for a separator of one code unit: never the empty array.\<close>

fun split :: "jsstring \<Rightarrow> 16 word \<Rightarrow> jsstring list" where
  "split [] sep = [[]]"
| "split (c # cs) sep =
     (if c = sep then [] # split cs sep
      else (case split cs sep of [] \<Rightarrow> [[c]] | p # ps \<Rightarrow> (c # p) # ps))"

text \<open>\<open>s.indexOf(c)\<close> for one code unit; \<open>None\<close> stands for \<open>-1\<close>.\<close>

fun indexOf :: "jsstring \<Rightarrow> 16 word \<Rightarrow> nat option" where
  "indexOf [] c = None"
| "indexOf (x # xs) c = (if x = c then Some 0 else map_option Suc (indexOf xs c))"

section \<open>Route model (router.js)\<close>

text \<open>The replacement \<open>s.replace(/\/{2,}/g, '/')\<close>: every run of slashes becomes one slash.\<close>

fun collapseSlashes :: "jsstring \<Rightarrow> jsstring" where
  "collapseSlashes (a # b # s) =
     (if a = cu CHR ''/'' \<and> b = cu CHR ''/'' then collapseSlashes (b # s)
      else a # collapseSlashes (b # s))"
| "collapseSlashes s = s"

text \<open>
  \<open>normalizePath(raw)\<close>. A raw value that is not a string is replaced by \<open>''\<close> in the
  source, so the model takes strings.
\<close>

definition normalizePath :: "jsstring \<Rightarrow> jsstring" where
  "normalizePath raw =
     (let s = trim raw;
          s = (if startsWith s (js ''#'') then drop 1 s else s);
          s = (if startsWith s (js ''!'') then drop 1 s else s);
          s = (if \<not> startsWith s (js ''/'') then js ''/'' @ s else s);
          s = collapseSlashes s;
          onlyPath = hd (split s (cu CHR ''?''));
          cleaned = (if length onlyPath > 1 \<and> endsWith onlyPath (js ''/'')
                     then butlast onlyPath else onlyPath)
      in if cleaned = [] then js ''/'' else cleaned)"

text \<open>
  \<open>decodeURIComponent\<close> (ECMA-262, Decode with an empty reserved set). A code unit other
  than \<open>%\<close> is copied. \<open>%\<close> must be followed by two hexadecimal digits, which give an
  octet. An octet below \<open>0x80\<close> is the code unit itself; otherwise it must open a valid
  UTF-8 sequence of two to four octets, each written \<open>%XX\<close>, and the code point is
  appended in UTF-16. Anything else throws \<open>URIError\<close>.
\<close>

datatype error = URIError | ListenerError nat

datatype token = Lit "16 word" | Oct nat

definition hexDigit :: "16 word \<Rightarrow> nat option" where
  "hexDigit c =
     (if 0x30 \<le> c \<and> c \<le> 0x39 then Some (unat c - 0x30)
      else if 0x41 \<le> c \<and> c \<le> 0x46 then Some (unat c - 0x41 + 10)
      else if 0x61 \<le> c \<and> c \<le> 0x66 then Some (unat c - 0x61 + 10)
      else None)"

fun tokens :: "jsstring \<Rightarrow> token list option" where
  "tokens [] = Some []"
| "tokens (c # cs) =
     (if c = cu CHR ''%'' then
        (case cs of
           h1 # h2 # rest \<Rightarrow>
             (case hexDigit h1 of
                None \<Rightarrow> None
              | Some a \<Rightarrow>
                  (case hexDigit h2 of
                     None \<Rightarrow> None
                   | Some b \<Rightarrow> map_option ((#) (Oct (16 * a + b))) (tokens rest)))
         | _ \<Rightarrow> None)
      else map_option ((#) (Lit c)) (tokens cs))"

definition leadingOnes :: "nat \<Rightarrow> nat" where
  "leadingOnes b =
     (if b < 0x80 then 0 else if b < 0xC0 then 1 else if b < 0xE0 then 2
      else if b < 0xF0 then 3 else if b < 0xF8 then 4 else 5)"

text \<open>The continuation octets \<open>10xxxxxx\<close> of a sequence: their six payload bits.\<close>

fun contBytes :: "token list \<Rightarrow> nat list option" where
  "contBytes [] = Some []"
| "contBytes (Lit c # ts) = None"
| "contBytes (Oct b # ts) =
     (if 0x80 \<le> b \<and> b < 0xC0 then map_option ((#) (b - 0x80)) (contBytes ts) else None)"

text \<open>
  The code point of a sequence of \<open>n\<close> octets with leading octet \<open>b\<close>; \<open>None\<close> for an
  overlong form, a surrogate, or a value above \<open>0x10FFFF\<close>.
\<close>

definition codePoint :: "nat \<Rightarrow> nat \<Rightarrow> nat list \<Rightarrow> nat option" where
  "codePoint n b cs =
     (if n = 2 then
        (case cs of [c1] \<Rightarrow>
           (let v = (b - 0xC0) * 64 + c1 in if 0x80 \<le> v then Some v else None)
         | _ \<Rightarrow> None)
      else if n = 3 then
        (case cs of [c1, c2] \<Rightarrow>
           (let v = (b - 0xE0) * 4096 + c1 * 64 + c2
            in if 0x800 \<le> v \<and> \<not> (0xD800 \<le> v \<and> v \<le> 0xDFFF) then Some v else None)
         | _ \<Rightarrow> None)
      else if n = 4 then
        (case cs of [c1, c2, c3] \<Rightarrow>
           (let v = (b - 0xF0) * 262144 + c1 * 4096 + c2 * 64 + c3
            in if 0x10000 \<le> v \<and> v \<le> 0x10FFFF then Some v else None)
         | _ \<Rightarrow> None)
      else None)"

definition utf16 :: "nat \<Rightarrow> jsstring" where
  "utf16 v =
     (if v < 0x10000 then [of_nat v]
      else [of_nat (0xD800 + (v - 0x10000) div 1024), of_nat (0xDC00 + (v - 0x10000) mod 1024)])"

fun utf8 :: "token list \<Rightarrow> jsstring option" where
  "utf8 [] = Some []"
| "utf8 (Lit c # ts) = map_option ((#) c) (utf8 ts)"
| "utf8 (Oct b # ts) =
     (if b < 0x80 then map_option ((#) (of_nat b)) (utf8 ts)
      else
        (let n = leadingOnes b in
         if n = 1 \<or> n > 4 then None
         else
           (case contBytes (take (n - 1) ts) of
              None \<Rightarrow> None
            | Some cs \<Rightarrow>
                (case codePoint n b cs of
                   None \<Rightarrow> None
                 | Some v \<Rightarrow> map_option ((@) (utf16 v)) (utf8 (drop (n - 1) ts))))))"

definition decodeURIComponent :: "jsstring \<Rightarrow> error + jsstring" where
  "decodeURIComponent s =
     (case tokens s of
        None \<Rightarrow> Inl URIError
      | Some ts \<Rightarrow> (case utf8 ts of None \<Rightarrow> Inl URIError | Some r \<Rightarrow> Inr r))"

text \<open>
  The query parameters are the own properties of the object \<open>out\<close>, all strings.
  \<open>out[key] = value\<close> on an object literal: the key \<open>__proto__\<close> is the accessor every
  object inherits, and assigning a string to it leaves the object as it is.
\<close>

type_synonym params = "jsstring \<rightharpoonup> jsstring"

definition setParam :: "params \<Rightarrow> jsstring \<Rightarrow> jsstring \<Rightarrow> params" where
  "setParam out key v = (if key = js ''__proto__'' then out else out(key \<mapsto> v))"

text \<open>The loop of \<open>parseParams\<close> over the parts of the query.\<close>

fun parseParts :: "jsstring list \<Rightarrow> params \<Rightarrow> error + params" where
  "parseParts [] out = Inr out"
| "parseParts (part # rest) out =
     (if part = [] then parseParts rest out
      else
        (case indexOf part (cu CHR ''='') of
           None \<Rightarrow>
             (case decodeURIComponent part of
                Inl e \<Rightarrow> Inl e
              | Inr key \<Rightarrow> parseParts rest (if key \<noteq> [] then setParam out key [] else out))
         | Some eq \<Rightarrow>
             (case decodeURIComponent (take eq part) of
                Inl e \<Rightarrow> Inl e
              | Inr key \<Rightarrow>
                  (case decodeURIComponent (drop (eq + 1) part) of
                     Inl e \<Rightarrow> Inl e
                   | Inr v \<Rightarrow>
                       parseParts rest (if key \<noteq> [] then setParam out key v else out)))))"

definition parseParams :: "jsstring \<Rightarrow> error + params" where
  "parseParams raw =
     (if raw = [] then Inr Map.empty
      else
        (case indexOf raw (cu CHR ''?'') of
           None \<Rightarrow> Inr Map.empty
         | Some idx \<Rightarrow>
             (let query = drop (idx + 1) raw in
              if query = [] then Inr Map.empty
              else parseParts (split query (cu CHR ''&'')) Map.empty)))"

definition toSegments :: "jsstring \<Rightarrow> jsstring list" where
  "toSegments p =
     (if p = [] \<or> p = js ''/'' then [] else filter (\<lambda>x. x \<noteq> []) (split p (cu CHR ''/'')))"

record route =
  path :: jsstring
  segments :: "jsstring list"
  params :: params

definition ROUTE_WHITELIST :: "jsstring list" where
  "ROUTE_WHITELIST =
     [js ''/home'', js ''/status'', js ''/basic'', js ''/advanced'', js ''/management'',
      js ''/application'']"

text \<open>The loop of \<open>isAllowedRoute\<close> over the whitelist, in insertion order.\<close>

fun allowedIn :: "jsstring list \<Rightarrow> jsstring \<Rightarrow> bool" where
  "allowedIn [] p = False"
| "allowedIn (base # bases) p =
     (if p = base \<or> startsWith p (base @ js ''/'') then True else allowedIn bases p)"

definition isAllowedRoute :: "jsstring \<Rightarrow> bool" where
  "isAllowedRoute p = (if p = js ''/'' \<or> p = [] then False else allowedIn ROUTE_WHITELIST p)"

section \<open>The location of the window\<close>

text \<open>
  What the window does with a fragment that the router writes (URL Standard, HTML
  Standard). The string is read as code points, a surrogate that has no partner becoming
  \<open>U+FFFD\<close>. Tabs and newlines are removed. In the fragment, a C0 control, a space, one
  of \<open>" < > `\<close>, and every code point above \<open>~\<close> is replaced by the percent-encoded
  octets of its UTF-8 form; every other code point is kept. \<open>location.hash\<close> then reads
  \<open>#\<close> and the fragment, or the empty string when the fragment is empty.
\<close>

definition isHighSurrogate :: "16 word \<Rightarrow> bool" where
  "isHighSurrogate c \<longleftrightarrow> 0xD800 \<le> c \<and> c \<le> 0xDBFF"

definition isLowSurrogate :: "16 word \<Rightarrow> bool" where
  "isLowSurrogate c \<longleftrightarrow> 0xDC00 \<le> c \<and> c \<le> 0xDFFF"

definition scalar :: "16 word \<Rightarrow> nat" where
  "scalar c = (if isHighSurrogate c \<or> isLowSurrogate c then 0xFFFD else unat c)"

fun codePoints :: "jsstring \<Rightarrow> nat list" where
  "codePoints [] = []"
| "codePoints [c] = [scalar c]"
| "codePoints (a # b # s) =
     (if isHighSurrogate a \<and> isLowSurrogate b
      then (0x10000 + (unat a - 0xD800) * 0x400 + (unat b - 0xDC00)) # codePoints s
      else scalar a # codePoints (b # s))"

definition utf8Encode :: "nat \<Rightarrow> nat list" where
  "utf8Encode v =
     (if v < 0x80 then [v]
      else if v < 0x800 then [0xC0 + v div 64, 0x80 + v mod 64]
      else if v < 0x10000 then [0xE0 + v div 4096, 0x80 + (v div 64) mod 64, 0x80 + v mod 64]
      else [0xF0 + v div 262144, 0x80 + (v div 4096) mod 64, 0x80 + (v div 64) mod 64,
            0x80 + v mod 64])"

definition hexUpper :: "nat \<Rightarrow> 16 word" where
  "hexUpper n = js ''0123456789ABCDEF'' ! (n mod 16)"

definition percentEncodeByte :: "nat \<Rightarrow> jsstring" where
  "percentEncodeByte b = [cu CHR ''%'', hexUpper (b div 16), hexUpper b]"

definition inFragmentPercentEncodeSet :: "nat \<Rightarrow> bool" where
  "inFragmentPercentEncodeSet v \<longleftrightarrow>
     v \<le> 0x1F \<or> v > 0x7E \<or> v = 0x20 \<or> v = 0x22 \<or> v = 0x3C \<or> v = 0x3E \<or> v = 0x60"

text \<open>The fragment state of the URL parser.\<close>

fun fragmentState :: "nat list \<Rightarrow> jsstring" where
  "fragmentState [] = []"
| "fragmentState (v # vs) =
     (if inFragmentPercentEncodeSet v then concat (map percentEncodeByte (utf8Encode v))
      else [of_nat v]) @ fragmentState vs"

definition removeTabNewline :: "nat list \<Rightarrow> nat list" where
  "removeTabNewline vs = filter (\<lambda>v. v \<noteq> 0x09 \<and> v \<noteq> 0x0A \<and> v \<noteq> 0x0D) vs"

definition stripC0ControlOrSpace :: "nat list \<Rightarrow> nat list" where
  "stripC0ControlOrSpace vs =
     rev (dropWhile (\<lambda>v. v \<le> 0x20) (rev (dropWhile (\<lambda>v. v \<le> 0x20) vs)))"

definition hashOf :: "jsstring \<Rightarrow> jsstring" where
  "hashOf fragment = (if fragment = [] then [] else js ''#'' @ fragment)"

text \<open>
  \<open>location.hash = value\<close>: one leading \<open>#\<close> of the value is dropped and the rest is
  parsed in the fragment state. The result is what \<open>location.hash\<close> reads afterwards.
\<close>

definition locationSetHash :: "jsstring \<Rightarrow> jsstring" where
  "locationSetHash v =
     (let input = (if startsWith v (js ''#'') then drop 1 v else v)
      in hashOf (fragmentState (removeTabNewline (codePoints input))))"

text \<open>
  \<open>location.replace(url)\<close> for a URL that is only a fragment, as the router passes it: the
  URL parser first drops C0 controls and spaces at both ends, then tabs and newlines, and
  the text after the \<open>#\<close> is parsed in the fragment state. A URL that does not start with
  \<open>#\<close> names another document; the router passes none, and \<open>location.hash\<close> reads empty
  for it here.
\<close>

definition locationReplace :: "jsstring \<Rightarrow> jsstring" where
  "locationReplace url =
     (case removeTabNewline (stripC0ControlOrSpace (codePoints url)) of
        [] \<Rightarrow> []
      | c # rest \<Rightarrow> if c = 0x23 then hashOf (fragmentState rest) else [])"

section \<open>Router state machine (router.js)\<close>

text \<open>
  A listener is a callback registered by a caller. The modules see two things of it: its
  identity (the listener sets compare callbacks by identity) and whether a call of it
  returns or throws. A callback that throws raises \<open>ListenerError\<close> with its number.
  A callback is taken not to call back into the module while it runs.
\<close>

datatype listener = Listener (lid: nat) (throws: bool)

definition call :: "listener \<Rightarrow> 'a \<Rightarrow> error + unit" where
  "call cb x = (if throws cb then Inl (ListenerError (lid cb)) else Inr ())"

text \<open>
  The notification loop \<open>for (const cb of _listeners) { try { cb(x) } catch { } }\<close>, used by
  \<open>emit\<close> and by \<open>emitLanguageChange\<close>. The log records every call made, in order.
\<close>

fun notify :: "listener list \<Rightarrow> 'a \<Rightarrow> (listener \<times> 'a) list \<Rightarrow> (listener \<times> 'a) list" where
  "notify [] x log = log"
| "notify (cb # cbs) x log =
     (case call cb x of
        Inl e \<Rightarrow> notify cbs x (log @ [(cb, x)])
      | Inr u \<Rightarrow> notify cbs x (log @ [(cb, x)]))"

text \<open>\<open>Set.prototype.add\<close> and \<open>Set.prototype.delete\<close> on a set kept in insertion order.\<close>

definition setAdd :: "'a \<Rightarrow> 'a list \<Rightarrow> 'a list" where
  "setAdd x xs = (if x \<in> set xs then xs else xs @ [x])"

definition setDelete :: "'a \<Rightarrow> 'a list \<Rightarrow> 'a list" where
  "setDelete x xs = removeAll x xs"

text \<open>
  The module state of the router, with the part of the host it reads and writes:
  \<open>location_hash\<close> is what \<open>win.location.hash\<close> reads (\<open>None\<close> when there is no
  window); \<open>debounceTimer\<close> tells whether a timer is pending;
  \<open>hashchangeBound\<close> whether the \<open>hashchange\<close> handler is installed; \<open>calls\<close> logs the
  listener calls made so far.
\<close>

record router =
  defaultRoute :: jsstring
  listeners :: "listener list"
  currentRoute :: "route option"
  isInitialized :: bool
  debounceTimer :: bool
  location_hash :: "jsstring option"
  hashchangeBound :: bool
  calls :: "(listener \<times> route) list"

definition initial :: "jsstring option \<Rightarrow> router" where
  "initial h =
     \<lparr>defaultRoute = js ''/home'', listeners = [], currentRoute = None,
      isInitialized = False, debounceTimer = False, location_hash = h,
      hashchangeBound = False, calls = []\<rparr>"

text \<open>\<open>win ? win.location.hash : ''\<close>\<close>

definition winHash :: "router \<Rightarrow> jsstring" where
  "winHash s = (case location_hash s of None \<Rightarrow> [] | Some h \<Rightarrow> h)"

definition buildRouteFrom :: "router \<Rightarrow> jsstring \<Rightarrow> error + route" where
  "buildRouteFrom s rawHash =
     (let raw = (if rawHash \<noteq> [] then rawHash else winHash s);
          normalizedPath = normalizePath raw
      in case parseParams raw of
           Inl e \<Rightarrow> Inl e
         | Inr ps \<Rightarrow>
             Inr \<lparr>path = normalizedPath, segments = toSegments normalizedPath, params = ps\<rparr>)"

definition emit :: "route \<Rightarrow> router \<Rightarrow> router" where
  "emit r s = s\<lparr>currentRoute := Some r, calls := notify (listeners s) r (calls s)\<rparr>"

text \<open>Any pending timer is cleared and a new one is set: one timer is pending afterwards.\<close>

definition debouncedHandleRouteChange :: "router \<Rightarrow> router" where
  "debouncedHandleRouteChange s = s\<lparr>debounceTimer := True\<rparr>"

record nav_opts =
  replace :: bool
  silent :: bool

definition navigate :: "jsstring \<Rightarrow> nav_opts \<Rightarrow> router \<Rightarrow> router" where
  "navigate p opts s =
     (let normalized = normalizePath p in
      case location_hash s of
        None \<Rightarrow> s
      | Some h \<Rightarrow>
          (let targetHash = js ''#'' @ normalized;
               s1 = (if replace opts
                     then s\<lparr>location_hash := Some (locationReplace targetHash)\<rparr>
                     else s\<lparr>location_hash := Some (locationSetHash normalized)\<rparr>)
           in if \<not> silent opts then debouncedHandleRouteChange s1 else s1))"

definition handleRouteChange :: "router \<Rightarrow> error + router" where
  "handleRouteChange s =
     (let raw = winHash s in
      case buildRouteFrom s raw of
        Inl e \<Rightarrow> Inl e
      | Inr r \<Rightarrow>
          if \<not> isAllowedRoute (path r)
          then Inr (navigate (defaultRoute s) \<lparr>replace = True, silent = False\<rparr> s)
          else Inr (emit r s))"

text \<open>
  The timer callback of \<open>debouncedHandleRouteChange\<close>. An exception of
  \<open>handleRouteChange\<close> leaves the callback uncaught; the state stays as it was then.
\<close>

definition timerFires :: "router \<Rightarrow> router" where
  "timerFires s =
     (if debounceTimer s then
        (let s1 = s\<lparr>debounceTimer := False\<rparr> in
         case handleRouteChange s1 of Inl e \<Rightarrow> s1 | Inr s2 \<Rightarrow> s2)
      else s)"

definition onRouteChange :: "listener \<Rightarrow> router \<Rightarrow> router" where
  "onRouteChange cb s = s\<lparr>listeners := setAdd cb (listeners s)\<rparr>"

definition offRouteChange :: "listener \<Rightarrow> router \<Rightarrow> router" where
  "offRouteChange cb s = s\<lparr>listeners := setDelete cb (listeners s)\<rparr>"

text \<open>
  The options of \<open>initRouter\<close>: a field is \<open>None\<close> when it is absent or of the wrong type.
\<close>

record options =
  opt_defaultRoute :: "jsstring option"
  opt_onRouteChange :: "listener option"

definition setDefaultRoute :: "options \<Rightarrow> router \<Rightarrow> router" where
  "setDefaultRoute opts s =
     (case opt_defaultRoute opts of
        None \<Rightarrow> s
      | Some d \<Rightarrow> if d \<noteq> [] then s\<lparr>defaultRoute := normalizePath d\<rparr> else s)"

definition initRouter :: "options \<Rightarrow> router \<Rightarrow> router" where
  "initRouter opts s =
     (if isInitialized s then
        (let s1 = setDefaultRoute opts s in
         case opt_onRouteChange opts of
           None \<Rightarrow> s1
         | Some cb \<Rightarrow>
             (let s2 = onRouteChange cb s1 in
              case currentRoute s2 of
                None \<Rightarrow> s2
              | Some r \<Rightarrow> s2\<lparr>calls := notify [cb] r (calls s2)\<rparr>))
      else
        (let s1 = setDefaultRoute opts (s\<lparr>isInitialized := True\<rparr>);
             s2 = (case opt_onRouteChange opts of None \<Rightarrow> s1 | Some cb \<Rightarrow> onRouteChange cb s1);
             s3 = (if location_hash s2 \<noteq> None then s2\<lparr>hashchangeBound := True\<rparr> else s2)
         in debouncedHandleRouteChange s3))"

definition getRoute :: "router \<Rightarrow> error + route" where
  "getRoute s =
     (case currentRoute s of Some r \<Rightarrow> Inr r | None \<Rightarrow> buildRouteFrom s (winHash s))"

text \<open>
  What can happen to the router: a call of its public interface, the expiry of the
  debounce timer, a \<open>hashchange\<close> event of the window, and the user editing the fragment,
  after which \<open>location.hash\<close> reads the string given (any string is admitted).
\<close>

datatype event =
    InitRouter options
  | Navigate jsstring nav_opts
  | TimerFires
  | HashChange
  | UserSetsHash jsstring
  | OnRouteChange listener
  | OffRouteChange listener

fun step :: "router \<Rightarrow> event \<Rightarrow> router" where
  "step s (InitRouter opts) = initRouter opts s"
| "step s (Navigate p opts) = navigate p opts s"
| "step s TimerFires = timerFires s"
| "step s HashChange = (if hashchangeBound s then debouncedHandleRouteChange s else s)"
| "step s (UserSetsHash h) =
     (case location_hash s of None \<Rightarrow> s | Some old \<Rightarrow> s\<lparr>location_hash := Some h\<rparr>)"
| "step s (OnRouteChange cb) = onRouteChange cb s"
| "step s (OffRouteChange cb) = offRouteChange cb s"

definition run :: "router \<Rightarrow> event list \<Rightarrow> router" where
  "run s evs = foldl step s evs"

section \<open>View composer (main.js)\<close>

text \<open>
  The page module that \<open>renderRoute\<close> calls. \<open>ApplicationPage\<close> carries the parameter
  object it is called with; the other modules take no parameters.
\<close>

datatype page =
    HomePage
  | StatusPage
  | BasicSettingsPage
  | AdvancedSettingsPage
  | ManagementPage
  | ApplicationPage params
  | NotFoundPage

text \<open>
  The chain of tests of \<open>renderRoute\<close> on the route that \<open>getRoute()\<close> returned.
  \<open>path.split('/')[2]\<close> is \<open>undefined\<close> when the array has fewer than three elements.
\<close>

definition pageFor :: "route \<Rightarrow> page" where
  "pageFor r =
     (let p = (if path r \<noteq> [] then path r else js ''/home'') in
      if p = js ''/home'' then HomePage
      else if p = js ''/status'' \<or> startsWith p (js ''/status/'') then StatusPage
      else if p = js ''/basic'' \<or> startsWith p (js ''/basic/'') then BasicSettingsPage
      else if p = js ''/advanced'' \<or> startsWith p (js ''/advanced/'') then AdvancedSettingsPage
      else if p = js ''/management'' \<or> startsWith p (js ''/management/'') then ManagementPage
      else if p = js ''/application'' \<or> startsWith p (js ''/application/'') then
        (let sub = (case drop 2 (split p (cu CHR ''/'')) of
                      [] \<Rightarrow> js ''preferences''
                    | x # xs \<Rightarrow> if x \<noteq> [] then x else js ''preferences'')
         in ApplicationPage ((params r)(js ''sub'' \<mapsto> sub)))
      else NotFoundPage)"

text \<open>
  \<open>renderRoute()\<close> with the container present: the page module it calls. The route is
  read before the \<open>try\<close> block, so an exception of \<open>getRoute\<close> leaves \<open>renderRoute\<close>.
\<close>

definition renderRoute :: "router \<Rightarrow> error + page" where
  "renderRoute s = (case getRoute s of Inl e \<Rightarrow> Inl e | Inr r \<Rightarrow> Inr (pageFor r))"

section \<open>Translation registry (i18n/translations.js)\<close>

text \<open>
  The values that the dictionaries and their lookups involve: \<open>undefined\<close>, strings,
  numbers (the \<open>length\<close> of a string), object literals with their own properties in
  order, and \<open>Host k\<close>, the built-in that every object literal inherits from
  \<open>Object.prototype\<close> under the name \<open>k\<close>.
\<close>

datatype jsval =
    Undefined
  | Str jsstring
  | Num nat
  | Obj "(jsstring \<times> jsval) list"
  | Host jsstring

fun truthy :: "jsval \<Rightarrow> bool" where
  "truthy Undefined = False"
| "truthy (Str s) = (s \<noteq> [])"
| "truthy (Num n) = (n \<noteq> 0)"
| "truthy (Obj ps) = True"
| "truthy (Host k) = True"

text \<open>The property names of \<open>Object.prototype\<close> (ECMA-262, with its Annex B).\<close>

definition Object_prototype_keys :: "jsstring list" where
  "Object_prototype_keys =
     [js ''constructor'', js ''hasOwnProperty'', js ''isPrototypeOf'',
      js ''propertyIsEnumerable'', js ''toLocaleString'', js ''toString'', js ''valueOf'',
      js ''__proto__'', js ''__defineGetter__'', js ''__defineSetter__'',
      js ''__lookupGetter__'', js ''__lookupSetter__'']"

text \<open>
  \<open>obj[k]\<close> on an object literal: the own property, else the inherited built-in, else
  \<open>undefined\<close>.
\<close>

definition getProperty :: "(jsstring \<times> jsval) list \<Rightarrow> jsstring \<Rightarrow> jsval" where
  "getProperty ps k =
     (case map_of ps k of
        Some v \<Rightarrow> v
      | None \<Rightarrow> if k \<in> set Object_prototype_keys then Host k else Undefined)"

text \<open>
  The index that a property name denotes on a string: a decimal numeral with no leading
  zero.
\<close>

fun parseDigits :: "jsstring \<Rightarrow> nat \<Rightarrow> nat option" where
  "parseDigits [] acc = Some acc"
| "parseDigits (c # cs) acc =
     (if 0x30 \<le> c \<and> c \<le> 0x39 then parseDigits cs (10 * acc + (unat c - 0x30)) else None)"

definition arrayIndex :: "jsstring \<Rightarrow> nat option" where
  "arrayIndex p =
     (case p of
        [] \<Rightarrow> None
      | c # cs \<Rightarrow> if c = cu CHR ''0'' \<and> cs \<noteq> [] then None else parseDigits p 0)"

text \<open>
  \<open>Object.prototype.hasOwnProperty.call(cur, p)\<close> together with \<open>cur[p]\<close>: the own
  property \<open>p\<close> of \<open>cur\<close>, if there is one. A string has \<open>length\<close> and its indices; a
  number has none; the own properties of a built-in are the host's, given by \<open>host\<close>.
\<close>

fun ownProperty :: "(jsstring \<Rightarrow> jsstring \<Rightarrow> jsval option) \<Rightarrow> jsval \<Rightarrow> jsstring \<Rightarrow> jsval option" where
  "ownProperty host Undefined p = None"
| "ownProperty host (Str s) p =
     (if p = js ''length'' then Some (Num (length s))
      else (case arrayIndex p of
              None \<Rightarrow> None
            | Some i \<Rightarrow> if i < length s then Some (Str [s ! i]) else None))"
| "ownProperty host (Num n) p = None"
| "ownProperty host (Obj ps) p = map_of ps p"
| "ownProperty host (Host k) p = host k p"

text \<open>The loop of \<open>pathGet\<close> over the parts of the path.\<close>

fun walk :: "(jsstring \<Rightarrow> jsstring \<Rightarrow> jsval option) \<Rightarrow> jsval \<Rightarrow> jsstring list \<Rightarrow> jsval" where
  "walk host cur [] = cur"
| "walk host cur (p # ps) =
     (if truthy cur then
        (case ownProperty host cur p of None \<Rightarrow> Undefined | Some v \<Rightarrow> walk host v ps)
      else Undefined)"

definition pathGet :: "(jsstring \<Rightarrow> jsstring \<Rightarrow> jsval option) \<Rightarrow> jsval \<Rightarrow> jsstring \<Rightarrow> jsval" where
  "pathGet host obj p =
     (if \<not> truthy obj then Undefined else walk host obj (split p (cu CHR ''.'')))"

text \<open>
  \<open>interpolate(str, vars)\<close>: every match of \<open>/\{(\w+)\}/g\<close> is replaced by the own
  property of \<open>vars\<close> of that name, and left as it is when there is none. \<open>vars\<close> is \<open>None\<close>
  when it is absent or not an object; its properties are strings.
\<close>

definition isWordChar :: "16 word \<Rightarrow> bool" where
  "isWordChar c \<longleftrightarrow>
     (0x30 \<le> c \<and> c \<le> 0x39) \<or> (0x41 \<le> c \<and> c \<le> 0x5A) \<or> (0x61 \<le> c \<and> c \<le> 0x7A)
     \<or> c = cu CHR ''_''"

function replacePlaceholders :: "(jsstring \<rightharpoonup> jsstring) \<Rightarrow> jsstring \<Rightarrow> jsstring" where
  "replacePlaceholders vars [] = []"
| "replacePlaceholders vars (c # cs) =
     (let key = takeWhile isWordChar cs; rest = dropWhile isWordChar cs in
      if c = cu CHR ''{'' \<and> key \<noteq> [] \<and> startsWith rest (js ''}'') then
        (case vars key of Some v \<Rightarrow> v | None \<Rightarrow> js ''{'' @ key @ js ''}'')
          @ replacePlaceholders vars (drop 1 rest)
      else c # replacePlaceholders vars cs)"
  by pat_completeness auto
termination
  by (relation "measure (\<lambda>(vars, s). length s)")
    (auto intro: le_imp_less_Suc order_trans [OF diff_le_self length_dropWhile_le])

definition interpolate :: "jsstring \<Rightarrow> (jsstring \<rightharpoonup> jsstring) option \<Rightarrow> jsstring" where
  "interpolate str vars =
     (case vars of None \<Rightarrow> str | Some vs \<Rightarrow> replacePlaceholders vs str)"

text \<open>The dictionaries.\<close>

definition en_app :: jsval where
  "en_app =
     Obj
         [(js ''title'', Str (js ''User Dashboard''))]"

definition en_header :: jsval where
  "en_header =
     Obj
         [(js ''language'', Str (js ''Language'')),
          (js ''account'', Str (js ''Account'')),
          (js ''logout'', Str (js ''Logout''))]"

definition en_navigation :: jsval where
  "en_navigation =
     Obj
         [(js ''home'', Str (js ''Home'')),
          (js ''status'', Str (js ''Status'')),
          (js ''basicSettings'', Str (js ''Basic Settings'')),
          (js ''advancedSettings'', Str (js ''Advanced Settings'')),
          (js ''management'', Str (js ''Management'')),
          (js ''application'', Str (js ''Application'')),
          (js ''statusLan'', Str (js ''LAN'')),
          (js ''statusWan'', Str (js ''WAN'')),
          (js ''statusWlan'', Str (js ''WLAN'')),
          (js ''statusDhcp'', Str (js ''DHCP'')),
          (js ''statusLog'', Str (js ''Log'')),
          (js ''basicLan'', Str (js ''LAN'')),
          (js ''basicWan'', Str (js ''WAN'')),
          (js ''basicWlan'', Str (js ''WLAN'')),
          (js ''basicDhcp'', Str (js ''DHCP'')),
          (js ''advancedServiceControl'', Str (js ''Service Control'')),
          (js ''advancedDdns'', Str (js ''DDNS'')),
          (js ''advancedDmz'', Str (js ''DMZ'')),
          (js ''managementNtp'', Str (js ''NTP'')),
          (js ''managementSsh'', Str (js ''SSH'')),
          (js ''managementFirmware'', Str (js ''Firmware Upgrade'')),
          (js ''applicationUpnp'', Str (js ''UPnP''))]"

definition en_sections :: jsval where
  "en_sections =
     Obj
         [(js ''home'', Str (js ''Home'')),
          (js ''status'', Str (js ''Status'')),
          (js ''basicSettings'', Str (js ''Basic Settings'')),
          (js ''advancedSettings'', Str (js ''Advanced Settings'')),
          (js ''management'', Str (js ''Management'')),
          (js ''application'', Str (js ''Application''))]"

definition en_pages :: jsval where
  "en_pages =
     Obj
         [(js ''home'', Obj
            [(js ''title'', Str (js ''Welcome to the Dashboard'')),
             (js ''subtitle'', Str (js ''Select an item from the menu to get started.''))]),
          (js ''status'', Obj
            [(js ''title'', Str (js ''System Status'')),
             (js ''subtitle'', Str (js ''View system health and live metrics.''))]),
          (js ''basicSettings'', Obj
            [(js ''title'', Str (js ''Basic Settings'')),
             (js ''subtitle'', Str (js ''Configure common settings.''))]),
          (js ''advancedSettings'', Obj
            [(js ''title'', Str (js ''Advanced Settings'')),
             (js ''subtitle'', Str (js ''Tweak advanced parameters.''))]),
          (js ''management'', Obj
            [(js ''title'', Str (js ''Management'')),
             (js ''subtitle'', Str (js ''Manage users, roles, and permissions.''))]),
          (js ''application'', Obj
            [(js ''title'', Str (js ''Application'')),
             (js ''subtitle'', Str (js ''Application-level configuration and tools.''))]),
          (js ''notFound'', Obj
            [(js ''title'', Str (js ''Page Not Found'')),
             (js ''subtitle'', Str (js ''The page you are looking for does not exist.''))])]"

definition en :: jsval where
  "en = Obj [(js ''app'', en_app), (js ''header'', en_header), (js ''navigation'', en_navigation), (js ''sections'', en_sections), (js ''pages'', en_pages)]"

definition es_app :: jsval where
  "es_app =
     Obj
         [(js ''title'', Str (js ''Panel de Usuario''))]"

definition es_header :: jsval where
  "es_header =
     Obj
         [(js ''language'', Str (js ''Idioma'')),
          (js ''account'', Str (js ''Cuenta'')),
          (js ''logout'', Str (js ''Cerrar sesi'' @ [0xF3] @ js ''n''))]"

definition es_navigation :: jsval where
  "es_navigation =
     Obj
         [(js ''home'', Str (js ''Inicio'')),
          (js ''status'', Str (js ''Estado'')),
          (js ''basicSettings'', Str (js ''Configuraci'' @ [0xF3] @ js ''n B'' @ [0xE1] @ js ''sica'')),
          (js ''advancedSettings'', Str (js ''Configuraci'' @ [0xF3] @ js ''n Avanzada'')),
          (js ''management'', Str (js ''Administraci'' @ [0xF3] @ js ''n'')),
          (js ''application'', Str (js ''Aplicaci'' @ [0xF3] @ js ''n'')),
          (js ''statusLan'', Str (js ''LAN'')),
          (js ''statusWan'', Str (js ''WAN'')),
          (js ''statusWlan'', Str (js ''WLAN'')),
          (js ''statusDhcp'', Str (js ''DHCP'')),
          (js ''statusLog'', Str (js ''Registro'')),
          (js ''basicLan'', Str (js ''LAN'')),
          (js ''basicWan'', Str (js ''WAN'')),
          (js ''basicWlan'', Str (js ''WLAN'')),
          (js ''basicDhcp'', Str (js ''DHCP'')),
          (js ''advancedServiceControl'', Str (js ''Control de Servicio'')),
          (js ''advancedDdns'', Str (js ''DDNS'')),
          (js ''advancedDmz'', Str (js ''DMZ'')),
          (js ''managementNtp'', Str (js ''NTP'')),
          (js ''managementSsh'', Str (js ''SSH'')),
          (js ''managementFirmware'', Str (js ''Actualizaci'' @ [0xF3] @ js ''n de Firmware'')),
          (js ''applicationUpnp'', Str (js ''UPnP''))]"

definition es_sections :: jsval where
  "es_sections =
     Obj
         [(js ''home'', Str (js ''Inicio'')),
          (js ''status'', Str (js ''Estado'')),
          (js ''basicSettings'', Str (js ''Configuraci'' @ [0xF3] @ js ''n B'' @ [0xE1] @ js ''sica'')),
          (js ''advancedSettings'', Str (js ''Configuraci'' @ [0xF3] @ js ''n Avanzada'')),
          (js ''management'', Str (js ''Administraci'' @ [0xF3] @ js ''n'')),
          (js ''application'', Str (js ''Aplicaci'' @ [0xF3] @ js ''n''))]"

definition es_pages :: jsval where
  "es_pages =
     Obj
         [(js ''home'', Obj
            [(js ''title'', Str (js ''Bienvenido al Panel'')),
             (js ''subtitle'', Str (js ''Selecciona un elemento del men'' @ [0xFA] @ js '' para comenzar.''))]),
          (js ''status'', Obj
            [(js ''title'', Str (js ''Estado del Sistema'')),
             (js ''subtitle'', Str (js ''Ver salud del sistema y m'' @ [0xE9] @ js ''tricas en vivo.''))]),
          (js ''basicSettings'', Obj
            [(js ''title'', Str (js ''Configuraci'' @ [0xF3] @ js ''n B'' @ [0xE1] @ js ''sica'')),
             (js ''subtitle'', Str (js ''Configura los ajustes comunes.''))]),
          (js ''advancedSettings'', Obj
            [(js ''title'', Str (js ''Configuraci'' @ [0xF3] @ js ''n Avanzada'')),
             (js ''subtitle'', Str (js ''Ajusta par'' @ [0xE1] @ js ''metros avanzados.''))]),
          (js ''management'', Obj
            [(js ''title'', Str (js ''Administraci'' @ [0xF3] @ js ''n'')),
             (js ''subtitle'', Str (js ''Gestiona usuarios, roles y permisos.''))]),
          (js ''application'', Obj
            [(js ''title'', Str (js ''Aplicaci'' @ [0xF3] @ js ''n'')),
             (js ''subtitle'', Str (js ''Configuraci'' @ [0xF3] @ js ''n y herramientas a nivel de aplicaci'' @ [0xF3] @ js ''n.''))]),
          (js ''notFound'', Obj
            [(js ''title'', Str (js ''P'' @ [0xE1] @ js ''gina No Encontrada'')),
             (js ''subtitle'', Str (js ''La p'' @ [0xE1] @ js ''gina que buscas no existe.''))])]"

definition es :: jsval where
  "es = Obj [(js ''app'', es_app), (js ''header'', es_header), (js ''navigation'', es_navigation), (js ''sections'', es_sections), (js ''pages'', es_pages)]"

definition dictionaries :: "(jsstring \<times> jsval) list" where
  "dictionaries = [(js ''en'', en), (js ''es'', es)]"

text \<open>
  The module state of the registry, with the two stores it can use: the wrapper passed
  to \<open>initI18n\<close> and \<open>window.localStorage\<close> behind \<open>safeLocalStorage\<close> (\<open>None\<close> when it
  is unavailable). Both stores keep what is set. \<open>langCalls\<close> logs the listener calls.
\<close>

datatype storage = Wrapper | SafeLocalStorage

record i18n =
  storage :: "storage option"
  currentLang :: jsstring
  langListeners :: "listener list"
  wrapperItems :: "jsstring \<rightharpoonup> jsstring"
  localItems :: "(jsstring \<rightharpoonup> jsstring) option"
  langCalls :: "(listener \<times> jsstring) list"

definition storageKey :: jsstring where
  "storageKey = js ''app:lang''"

definition getItem :: "storage \<Rightarrow> jsstring \<Rightarrow> i18n \<Rightarrow> jsstring option" where
  "getItem st k s =
     (case st of
        Wrapper \<Rightarrow> wrapperItems s k
      | SafeLocalStorage \<Rightarrow> (case localItems s of None \<Rightarrow> None | Some m \<Rightarrow> m k))"

definition setItem :: "storage \<Rightarrow> jsstring \<Rightarrow> jsstring \<Rightarrow> i18n \<Rightarrow> i18n" where
  "setItem st k v s =
     (case st of
        Wrapper \<Rightarrow> s\<lparr>wrapperItems := (wrapperItems s)(k \<mapsto> v)\<rparr>
      | SafeLocalStorage \<Rightarrow>
          (case localItems s of None \<Rightarrow> s | Some m \<Rightarrow> s\<lparr>localItems := Some (m(k \<mapsto> v))\<rparr>))"

definition emitLanguageChange :: "jsstring \<Rightarrow> i18n \<Rightarrow> i18n" where
  "emitLanguageChange lang s = s\<lparr>langCalls := notify (langListeners s) lang (langCalls s)\<rparr>"

text \<open>\<open>toLowerCase\<close> on the letters of ASCII; the codes of the dictionaries are ASCII.\<close>

definition toLowerCase :: "jsstring \<Rightarrow> jsstring" where
  "toLowerCase s = map (\<lambda>c. if 0x41 \<le> c \<and> c \<le> 0x5A then c + 0x20 else c) s"

text \<open>
  \<open>initI18n(storage)\<close>: \<open>usable\<close> tells whether the argument has \<open>getItem\<close> and \<open>setItem\<close>;
  \<open>navLang\<close> is the language the navigator reports, \<open>None\<close> when it reports no string.
\<close>

definition initI18n :: "bool \<Rightarrow> jsstring option \<Rightarrow> i18n \<Rightarrow> i18n" where
  "initI18n usable navLang s =
     (let st = (if usable then Wrapper else SafeLocalStorage);
          s1 = s\<lparr>storage := Some st\<rparr>;
          s2 = (case getItem st storageKey s1 of
                  None \<Rightarrow> None
                | Some saved \<Rightarrow>
                    if saved \<noteq> [] \<and> truthy (getProperty dictionaries saved)
                    then Some (s1\<lparr>currentLang := saved\<rparr>) else None);
          s3 = (case s2 of
                  Some s' \<Rightarrow> s'
                | None \<Rightarrow>
                    (let s' = (case navLang of
                                 None \<Rightarrow> s1
                               | Some l \<Rightarrow>
                                   (let short = toLowerCase (take 2 l) in
                                    if truthy (getProperty dictionaries short)
                                    then s1\<lparr>currentLang := short\<rparr> else s1))
                     in setItem st storageKey (currentLang s') s'))
      in emitLanguageChange (currentLang s3) s3)"

definition setLanguage :: "jsstring \<Rightarrow> i18n \<Rightarrow> i18n" where
  "setLanguage lang s =
     (if \<not> truthy (getProperty dictionaries lang) then s
      else
        (let s1 = s\<lparr>currentLang := lang\<rparr>;
             s2 = (case storage s1 of
                     Some st \<Rightarrow> setItem st storageKey lang s1
                   | None \<Rightarrow> setItem SafeLocalStorage storageKey lang s1)
         in emitLanguageChange lang s2))"

definition getLanguage :: "i18n \<Rightarrow> jsstring" where
  "getLanguage s = currentLang s"

definition onLanguageChange :: "listener \<Rightarrow> i18n \<Rightarrow> i18n" where
  "onLanguageChange cb s = s\<lparr>langListeners := setAdd cb (langListeners s)\<rparr>"

definition offLanguageChange :: "listener \<Rightarrow> i18n \<Rightarrow> i18n" where
  "offLanguageChange cb s = s\<lparr>langListeners := setDelete cb (langListeners s)\<rparr>"

text \<open>\<open>t(key, vars)\<close>\<close>

definition t :: "(jsstring \<Rightarrow> jsstring \<Rightarrow> jsval option) \<Rightarrow> i18n \<Rightarrow> jsstring
    \<Rightarrow> (jsstring \<rightharpoonup> jsstring) option \<Rightarrow> jsval" where
  "t host s key vars =
     (let d = getProperty dictionaries (currentLang s);
          dict = (if truthy d then d else getProperty dictionaries (js ''en''));
          val = pathGet host dict key;
          val = (if val = Undefined then
                   (let fallback = pathGet host (getProperty dictionaries (js ''en'')) key
                    in if fallback \<noteq> Undefined then fallback else Str key)
                 else val)
      in case val of
           Str str \<Rightarrow> Str (interpolate str vars)
         | _ \<Rightarrow> if val \<noteq> Undefined then val else Str key)"

text \<open>The state of the module when it is loaded.\<close>

definition i18n0 :: "(jsstring \<rightharpoonup> jsstring) \<Rightarrow> (jsstring \<rightharpoonup> jsstring) option \<Rightarrow> i18n" where
  "i18n0 w l =
     \<lparr>storage = None, currentLang = js ''en'', langListeners = [], wrapperItems = w,
      localItems = l, langCalls = []\<rparr>"

section \<open>Auxiliary notions\<close>

text \<open>A string that starts with a slash and has no two slashes in a row.\<close>

definition slashy :: "jsstring \<Rightarrow> bool" where
  "slashy s \<longleftrightarrow> (\<exists>t. s = cu CHR ''/'' # t) \<and> \<not> sublist [cu CHR ''/'', cu CHR ''/''] s"

text \<open>The last two steps of \<open>normalizePath\<close>, on the path before the query.\<close>

definition cleanTail :: "jsstring \<Rightarrow> jsstring" where
  "cleanTail onlyPath =
     (let cleaned = (if length onlyPath > 1 \<and> endsWith onlyPath (js ''/'')
                     then butlast onlyPath else onlyPath)
      in if cleaned = [] then js ''/'' else cleaned)"

text \<open>
  The allowed routes in the words of the specification: the path equals a whitelist
  entry or starts with that entry followed by a slash.
\<close>

definition allowed_spec :: "jsstring \<Rightarrow> bool" where
  "allowed_spec p \<longleftrightarrow>
     (\<exists>base \<in> set ROUTE_WHITELIST. p = base \<or> startsWith p (base @ js ''/''))"

text \<open>The invariant of the router: what is stored or sent to a listener is allowed.\<close>

definition routerInv :: "router \<Rightarrow> bool" where
  "routerInv s \<longleftrightarrow>
     (\<forall>r. currentRoute s = Some r \<longrightarrow> isAllowedRoute (path r))
     \<and> (\<forall>cb r. (cb, r) \<in> set (calls s) \<longrightarrow> isAllowedRoute (path r))"

text \<open>
  A string of printable ASCII characters other than the space and \<open>" < > `\<close>: the window
  keeps it as it is in a fragment.
\<close>

definition fragmentSafe :: "jsstring \<Rightarrow> bool" where
  "fragmentSafe x \<longleftrightarrow>
     list_all (\<lambda>c. 0x21 \<le> c \<and> c \<le> 0x7E \<and> c \<noteq> 0x22 \<and> c \<noteq> 0x3C \<and> c \<noteq> 0x3E \<and> c \<noteq> 0x60) x"

text \<open>What \<open>location.hash\<close> reads after \<open>navigate\<close> wrote the normalized path \<open>n\<close>.\<close>

definition writtenHash :: "bool \<Rightarrow> jsstring \<Rightarrow> jsstring" where
  "writtenHash rp n = (if rp then locationReplace (js ''#'' @ n) else locationSetHash n)"

section \<open>Strings\<close>

lemma js_simps: "js [] = []" "js (c # cs) = cu c # js cs"
  by (simp_all add: js_def)

lemma js_Cons_fold: "cu c # js cs = js (c # cs)"
  by (simp add: js_simps)

lemma split_not_Nil [simp]: "split s sep \<noteq> []"
  by (induction s) (auto split: list.splits)

lemma hd_split: "hd (split s sep) = takeWhile (\<lambda>c. c \<noteq> sep) s"
proof (induction s)
  case Nil
  show ?case by simp
next
  case (Cons c cs)
  then show ?case
    by (cases "split cs sep") auto
qed

lemma startsWith1: "startsWith s [c] \<longleftrightarrow> (\<exists>t. s = c # t)"
  by (cases s) (auto simp: startsWith_def)

lemma endsWith1: "endsWith s [c] \<longleftrightarrow> s \<noteq> [] \<and> last s = c"
  by (cases s rule: rev_cases) (auto simp: endsWith_def)

lemma indexOf_None: "indexOf s c = None \<longleftrightarrow> c \<notin> set s"
  by (induction s) auto

lemma dropWhile_snoc: "\<not> P a \<Longrightarrow> \<exists>w. dropWhile P (xs @ [a]) = w @ [a]"
  by (induction xs) auto

lemma trim_Cons2:
  assumes "\<not> isWhiteSpace a" and "\<not> isWhiteSpace b"
  shows "trim (a # b # u) = a # trim (b # u)"
proof -
  have "b \<in> set (rev (b # u))" by simp
  then have "dropWhile isWhiteSpace (rev (b # u) @ [a]) = dropWhile isWhiteSpace (rev (b # u)) @ [a]"
    using assms(2) by (rule dropWhile_append1)
  then have "dropWhile isWhiteSpace (rev (a # b # u)) = dropWhile isWhiteSpace (rev (b # u)) @ [a]"
    by simp
  moreover have "dropWhile isWhiteSpace (a # b # u) = a # b # u"
    "dropWhile isWhiteSpace (b # u) = b # u"
    using assms by simp_all
  ultimately show ?thesis
    unfolding trim_def by (simp only: rev_append rev.simps append.simps)
qed

lemma trim_slash: "\<exists>v. trim (cu CHR ''/'' # u) = cu CHR ''/'' # v"
proof -
  have ws: "\<not> isWhiteSpace (cu CHR ''/'')"
    by (simp add: isWhiteSpace_def cu_def)
  then have 1: "dropWhile isWhiteSpace (cu CHR ''/'' # u) = cu CHR ''/'' # u"
    by simp
  from ws obtain w where 2: "dropWhile isWhiteSpace (rev u @ [cu CHR ''/'']) = w @ [cu CHR ''/'']"
    using dropWhile_snoc [of isWhiteSpace "cu CHR ''/''" "rev u"] by auto
  have "trim (cu CHR ''/'' # u) = rev (dropWhile isWhiteSpace (rev u @ [cu CHR ''/'']))"
    by (simp only: trim_def 1 rev.simps)
  also have "\<dots> = cu CHR ''/'' # rev w"
    by (simp only: 2 rev_append rev.simps append.simps)
  finally show ?thesis by blast
qed

text \<open>
  The facts that evaluate the string functions on a concrete input.
\<close>

lemmas str_defs = js_simps cu_def trim_def startsWith_def endsWith1 isWhiteSpace_def Let_def

section \<open>The shape of a normalized path\<close>

lemma slash_neq_qmark [simp]: "cu CHR ''/'' \<noteq> cu CHR ''?''"
  by (simp add: cu_def)

lemma collapseSlashes_hd: "collapseSlashes (c # s) = c # tl (collapseSlashes (c # s))"
  by (induction "c # s" arbitrary: c s rule: collapseSlashes.induct) auto

lemma collapseSlashes_no_double:
  "\<not> sublist [cu CHR ''/'', cu CHR ''/''] (collapseSlashes s)"
proof (induction s rule: collapseSlashes.induct)
  case (1 a b s)
  obtain u where "collapseSlashes (b # s) = b # u"
    using collapseSlashes_hd by blast
  with 1 show ?case
    by (auto simp: sublist_Cons_right)
qed (auto simp: sublist_Cons_right)

lemma sublist_of_sublist: "sublist xs ys \<Longrightarrow> sublist ys zs \<Longrightarrow> sublist xs zs"
  using sublist_order.order_trans by blast

lemma last_butlast_no_double:
  assumes "\<not> sublist [c, c] s" and "last s = c" and "length s > 1"
  shows "last (butlast s) \<noteq> c"
proof
  assume l: "last (butlast s) = c"
  from assms(3) obtain u x where s: "s = u @ [x]" and u: "u \<noteq> []"
    by (cases s rule: rev_cases) auto
  from u obtain v y where uv: "u = v @ [y]"
    by (cases u rule: rev_cases) auto
  from s uv l assms(2) have "s = v @ [c, c] @ []"
    by (simp add: butlast_append)
  then have "sublist [c, c] s"
    unfolding sublist_def by blast
  with assms(1) show False by simp
qed

lemma slashy_takeWhile:
  assumes "slashy s"
  shows "slashy (takeWhile (\<lambda>c. c \<noteq> cu CHR ''?'') s)"
proof -
  from assms obtain u where s: "s = cu CHR ''/'' # u"
    by (auto simp: slashy_def)
  have "sublist (takeWhile (\<lambda>c. c \<noteq> cu CHR ''?'') s) s" by simp
  with assms have "\<not> sublist [cu CHR ''/'', cu CHR ''/''] (takeWhile (\<lambda>c. c \<noteq> cu CHR ''?'') s)"
    using sublist_of_sublist unfolding slashy_def by blast
  with s show ?thesis by (simp add: slashy_def)
qed

lemma slashy_collapse: "slashy (collapseSlashes (cu CHR ''/'' # u))"
  unfolding slashy_def
  using collapseSlashes_hd [of "cu CHR ''/''" u] collapseSlashes_no_double
  by blast

lemma slashy_butlast:
  assumes "slashy p" and "length p > 1"
  shows "slashy (butlast p)"
proof -
  from assms obtain u where p: "p = cu CHR ''/'' # u" and u: "u \<noteq> []"
    by (cases p) (auto simp: slashy_def)
  have "sublist (butlast p) p" by simp
  with assms(1) have "\<not> sublist [cu CHR ''/'', cu CHR ''/''] (butlast p)"
    using sublist_of_sublist unfolding slashy_def by blast
  with p u show ?thesis by (simp add: slashy_def)
qed

lemma cleanTail_shape:
  assumes "slashy p"
  shows "slashy (cleanTail p)"
    and "cleanTail p \<noteq> js ''/'' \<Longrightarrow> \<not> endsWith (cleanTail p) (js ''/'')"
proof -
  from assms obtain u where p: "p = cu CHR ''/'' # u"
    by (auto simp: slashy_def)
  show "slashy (cleanTail p)"
    using assms slashy_butlast [OF assms] p
    by (auto simp: cleanTail_def Let_def js_simps)
  show "\<not> endsWith (cleanTail p) (js ''/'')" if ne: "cleanTail p \<noteq> js ''/''"
  proof (cases "length p > 1 \<and> endsWith p (js ''/'')")
    case True
    then have "last (butlast p) \<noteq> cu CHR ''/''"
      using last_butlast_no_double [of "cu CHR ''/''" p] assms
      by (simp add: slashy_def endsWith1 js_simps)
    with True p show ?thesis
      by (auto simp: cleanTail_def Let_def endsWith1 js_simps)
  next
    case False
    with p ne show ?thesis
      by (cases u) (auto simp: cleanTail_def Let_def endsWith1 js_simps)
  qed
qed

lemma cleanTail_set: "set (cleanTail p) \<subseteq> insert (cu CHR ''/'') (set p)"
  by (auto simp: cleanTail_def Let_def js_simps dest: in_set_butlastD)

lemma normalizePath_cleanTail:
  "\<exists>u. normalizePath x =
     cleanTail (takeWhile (\<lambda>c. c \<noteq> cu CHR ''?'') (collapseSlashes (cu CHR ''/'' # u)))"
proof -
  define s1 where "s1 = (if startsWith (trim x) (js ''#'') then drop 1 (trim x) else trim x)"
  define s2 where "s2 = (if startsWith s1 (js ''!'') then drop 1 s1 else s1)"
  define s3 where "s3 = (if \<not> startsWith s2 (js ''/'') then js ''/'' @ s2 else s2)"
  have "\<exists>u. s3 = cu CHR ''/'' # u"
    by (auto simp: s3_def startsWith1 js_simps)
  then obtain u where u: "s3 = cu CHR ''/'' # u" ..
  have "normalizePath x = cleanTail (takeWhile (\<lambda>c. c \<noteq> cu CHR ''?'') (collapseSlashes s3))"
    by (simp only: normalizePath_def cleanTail_def Let_def hd_split s1_def s2_def s3_def)
  with u show ?thesis by auto
qed

lemma normalizePath_slashy: "slashy (normalizePath x)"
  using normalizePath_cleanTail [of x] cleanTail_shape(1) slashy_takeWhile slashy_collapse
  by metis

lemma normalizePath_last:
  "normalizePath x \<noteq> js ''/'' \<Longrightarrow> \<not> endsWith (normalizePath x) (js ''/'')"
  using normalizePath_cleanTail [of x] cleanTail_shape(2) slashy_takeWhile slashy_collapse
  by metis

lemma normalizePath_no_query: "cu CHR ''?'' \<notin> set (normalizePath x)"
proof
  assume q: "cu CHR ''?'' \<in> set (normalizePath x)"
  obtain u where "normalizePath x =
     cleanTail (takeWhile (\<lambda>c. c \<noteq> cu CHR ''?'') (collapseSlashes (cu CHR ''/'' # u)))"
    using normalizePath_cleanTail by blast
  with q cleanTail_set
  have "cu CHR ''?'' \<in> insert (cu CHR ''/'')
      (set (takeWhile (\<lambda>c. c \<noteq> cu CHR ''?'') (collapseSlashes (cu CHR ''/'' # u))))"
    by auto
  then have "cu CHR ''?'' \<in> set (takeWhile (\<lambda>c. c \<noteq> cu CHR ''?'') (collapseSlashes (cu CHR ''/'' # u)))"
    using slash_neq_qmark by auto
  then show False
    by (auto dest: set_takeWhileD)
qed

lemma normalizePath_hash:
  "normalizePath (cu CHR ''#'' # cu CHR ''/'' # u) = normalizePath (cu CHR ''/'' # u)"
proof -
  have ws: "\<not> isWhiteSpace (cu CHR ''#'')" "\<not> isWhiteSpace (cu CHR ''/'')"
    by (simp_all add: isWhiteSpace_def cu_def)
  have t1: "trim (cu CHR ''#'' # cu CHR ''/'' # u) = cu CHR ''#'' # trim (cu CHR ''/'' # u)"
    using trim_Cons2 [OF ws] .
  obtain v where t2: "trim (cu CHR ''/'' # u) = cu CHR ''/'' # v"
    using trim_slash by blast
  have ne: "cu CHR ''/'' \<noteq> cu CHR ''#''" "cu CHR ''/'' \<noteq> cu CHR ''!''"
    by (simp_all add: cu_def)
  show ?thesis
    unfolding normalizePath_def t1 t2 using ne
    by (simp add: startsWith_def js_simps)
qed

lemma normalizePath_hash_normal:
  "normalizePath (cu CHR ''#'' # normalizePath x) = normalizePath (normalizePath x)"
  using normalizePath_slashy [of x] normalizePath_hash by (auto simp: slashy_def)

lemma normalizePath_empty: "normalizePath [] = js ''/''"
  by (simp add: normalizePath_def str_defs)

lemma norm_facts:
  "normalizePath (js ''/basic/network?tab=wifi'') = js ''/basic/network''"
  "normalizePath (js ''/basic/network'') = js ''/basic/network''"
  "normalizePath (js ''#/status'') = js ''/status''"
  "normalizePath (js ''/home'') = js ''/home''"
  "normalizePath (js ''/'') = js ''/''"
  "normalizePath (js ''/x'') = js ''/x''"
  by (simp_all add: normalizePath_def str_defs)

text \<open>
  C6: for every raw fragment string \<open>x\<close>, \<open>normalizePath x\<close> starts with a slash, contains
  no two slashes in a row, and ends with a slash only when it is exactly \<open>/\<close>.
\<close>

theorem normalizePath_shape:
  "startsWith (normalizePath x) (js ''/'')
   \<and> \<not> sublist (js ''//'') (normalizePath x)
   \<and> (endsWith (normalizePath x) (js ''/'') \<longrightarrow> normalizePath x = js ''/'')"
proof -
  have "normalizePath x \<noteq> js ''/'' \<Longrightarrow> \<not> endsWith (normalizePath x) (js ''/'')"
    using normalizePath_cleanTail [of x] cleanTail_shape(2) slashy_takeWhile slashy_collapse
    by metis
  with normalizePath_slashy [of x] show ?thesis
    by (auto simp: slashy_def startsWith1 js_simps)
qed

theorem normalizePath_shape_witness:
  "endsWith (normalizePath []) (js ''/'') \<and> normalizePath [] = js ''/''
   \<and> startsWith (normalizePath []) (js ''/'') \<and> \<not> sublist (js ''//'') (normalizePath [])"
  using normalizePath_shape [of "[]"]
  by (simp add: normalizePath_empty endsWith1 js_simps)

section \<open>Query parameters\<close>

lemma parseParams_no_query: "cu CHR ''?'' \<notin> set raw \<Longrightarrow> parseParams raw = Inr Map.empty"
  using indexOf_None [of raw "cu CHR ''?''"] by (simp add: parseParams_def)

lemma parseParams_hash_normal: "parseParams (cu CHR ''#'' # normalizePath p) = Inr Map.empty"
  using normalizePath_no_query [of p] by (intro parseParams_no_query) (simp add: cu_def)

text \<open>
  C1: the claim is that no raw input makes the route model throw. \<open>normalizePath\<close> and
  \<open>toSegments\<close> return for every string, but at the fragment \<open>#/home?%zz\<close> the percent
  sign is not followed by two hexadecimal digits: \<open>decodeURIComponent\<close> throws
  \<open>URIError\<close>, and with it \<open>parseParams\<close>, \<open>buildRouteFrom\<close> and \<open>getRoute\<close>.
\<close>

theorem parseParams_throws:
  "decodeURIComponent (js ''%zz'') = Inl URIError
   \<and> parseParams (js ''#/home?%zz'') = Inl URIError
   \<and> buildRouteFrom s (js ''#/home?%zz'') = Inl URIError
   \<and> getRoute (initial (Some (js ''#/home?%zz''))) = Inl URIError"
proof -
  have d: "decodeURIComponent (js ''%zz'') = Inl URIError"
    by (simp add: decodeURIComponent_def hexDigit_def str_defs)
  have p: "parseParams (js ''#/home?%zz'') = Inl URIError"
    by (simp add: parseParams_def decodeURIComponent_def hexDigit_def str_defs)
  have ne: "js ''#/home?%zz'' \<noteq> []"
    by (simp add: js_simps)
  have b: "buildRouteFrom s' (js ''#/home?%zz'') = Inl URIError" for s'
    by (simp add: buildRouteFrom_def Let_def p ne)
  have "getRoute (initial (Some (js ''#/home?%zz''))) = Inl URIError"
    using b [of "initial (Some (js ''#/home?%zz''))"]
    by (simp add: getRoute_def initial_def winHash_def)
  with d p b show ?thesis by simp
qed

section \<open>The whitelist\<close>

lemma allowedIn_iff:
  "allowedIn bases p \<longleftrightarrow> (\<exists>base \<in> set bases. p = base \<or> startsWith p (base @ js ''/''))"
  by (induction bases) auto

lemma isAllowedRoute_iff: "isAllowedRoute p \<longleftrightarrow> allowed_spec p"
proof -
  have "\<not> allowed_spec []" and "\<not> allowed_spec (js ''/'')"
    by (simp_all add: allowed_spec_def ROUTE_WHITELIST_def str_defs)
  then show ?thesis
    by (auto simp: isAllowedRoute_def allowedIn_iff allowed_spec_def)
qed

lemma allowed_facts:
  "isAllowedRoute (js ''/basic/network'')"
  "isAllowedRoute (js ''/status'')"
  "isAllowedRoute (js ''/home'')"
  "\<not> isAllowedRoute (js ''/'')"
  "\<not> isAllowedRoute (js ''/x'')"
  by (simp_all add: isAllowedRoute_def ROUTE_WHITELIST_def str_defs)

lemma segment_facts:
  "toSegments (js ''/basic/network'') = [js ''basic'', js ''network'']"
  "toSegments (js ''/status'') = [js ''status'']"
  "toSegments (js ''/home'') = [js ''home'']"
  by (simp_all add: toSegments_def str_defs)

section \<open>Notification\<close>

lemma notify_eq: "notify cbs x log = log @ map (\<lambda>cb. (cb, x)) cbs"
  by (induction cbs arbitrary: log) (auto split: sum.splits)

text \<open>
  C9: in one notification pass of the router (\<open>emit\<close>) or of the translation registry
  (\<open>emitLanguageChange\<close>), every registered listener is called once, in order, whether or
  not any of them throws; no exception leaves the pass.
\<close>

theorem listeners_all_called:
  "calls (emit r s) = calls s @ map (\<lambda>cb. (cb, r)) (listeners s)
   \<and> langCalls (emitLanguageChange lang i)
       = langCalls i @ map (\<lambda>cb. (cb, lang)) (langListeners i)"
  by (simp add: emit_def emitLanguageChange_def notify_eq)

section \<open>The location of the window\<close>

lemma safe_unit:
  assumes "0x21 \<le> c \<and> c \<le> 0x7E \<and> c \<noteq> 0x22 \<and> c \<noteq> 0x3C \<and> c \<noteq> 0x3E \<and> c \<noteq> (0x60 :: 16 word)"
  shows "scalar c = unat c" and "\<not> isHighSurrogate c"
    and "\<not> inFragmentPercentEncodeSet (unat c)"
    and "unat c \<noteq> 0x09 \<and> unat c \<noteq> 0x0A \<and> unat c \<noteq> 0x0D" and "\<not> unat c \<le> 0x20"
  using assms
  by (auto simp: scalar_def isHighSurrogate_def isLowSurrogate_def inFragmentPercentEncodeSet_def
      word_le_nat_alt word_unat_eq_iff)

lemma codePoints_Cons:
  "\<not> isHighSurrogate a \<Longrightarrow> codePoints (a # u) = scalar a # codePoints u"
  by (cases u) simp_all

lemma codePoints_safe: "fragmentSafe x \<Longrightarrow> codePoints x = map unat x"
  by (induction x) (simp_all add: fragmentSafe_def codePoints_Cons safe_unit)

lemma removeTabNewline_safe: "fragmentSafe x \<Longrightarrow> removeTabNewline (map unat x) = map unat x"
  by (induction x) (simp_all add: fragmentSafe_def removeTabNewline_def safe_unit)

lemma fragmentState_safe: "fragmentSafe x \<Longrightarrow> fragmentState (map unat x) = x"
  by (induction x) (simp_all add: fragmentSafe_def safe_unit)

lemma strip_ends:
  assumes "vs \<noteq> []" and "\<not> P (hd vs)" and "\<not> P (last vs)"
  shows "rev (dropWhile P (rev (dropWhile P vs))) = vs"
proof -
  from assms(1,2) have 1: "dropWhile P vs = vs"
    by (cases vs) simp_all
  from assms(1,3) have 2: "dropWhile P (rev vs) = rev vs"
    by (cases vs rule: rev_cases) simp_all
  show ?thesis
    by (simp only: 1 2 rev_rev_ident)
qed

lemma dropWhile_snoc_eq: "\<not> P a \<Longrightarrow> dropWhile P (xs @ [a]) = dropWhile P xs @ [a]"
  by (induction xs) auto

lemma strip_Cons2:
  assumes "\<not> P a" and "\<not> P b"
  shows "rev (dropWhile P (rev (dropWhile P (a # b # u)))) = a # b # rev (dropWhile P (rev u))"
proof -
  from assms(1) have 1: "dropWhile P (a # b # u) = a # b # u"
    by simp
  have 2: "dropWhile P ((rev u @ [b]) @ [a]) = dropWhile P (rev u @ [b]) @ [a]"
    using assms(1) by (rule dropWhile_snoc_eq)
  have 3: "dropWhile P (rev u @ [b]) = dropWhile P (rev u) @ [b]"
    using assms(2) by (rule dropWhile_snoc_eq)
  have "rev (dropWhile P (rev (dropWhile P (a # b # u)))) = rev ((dropWhile P (rev u) @ [b]) @ [a])"
    using 2 3 by (simp only: 1 rev.simps)
  then show ?thesis
    by simp
qed

lemma hexUpper_set: "hexUpper n \<in> set (js ''0123456789ABCDEF'')"
  unfolding hexUpper_def by (rule nth_mem) (simp add: js_def)

lemma hexUpper_not_qmark: "hexUpper n \<noteq> cu CHR ''?''"
proof
  assume "hexUpper n = cu CHR ''?''"
  with hexUpper_set [of n] have "cu CHR ''?'' \<in> set (js ''0123456789ABCDEF'')"
    by simp
  then show False
    by (simp add: js_simps cu_def)
qed

lemma percentEncodeByte_no_qmark: "cu CHR ''?'' \<notin> set (percentEncodeByte b)"
  using hexUpper_not_qmark [of "b div 16"] hexUpper_not_qmark [of b]
  by (auto simp: percentEncodeByte_def cu_def)

lemma of_nat_qmark:
  assumes "\<not> inFragmentPercentEncodeSet v" and "(of_nat v :: 16 word) = cu CHR ''?''"
  shows "v = 0x3F"
proof -
  from assms(1) have "v < 2 ^ LENGTH(16)"
    by (simp add: inFragmentPercentEncodeSet_def)
  then have "unat (of_nat v :: 16 word) = v"
    by (simp add: unat_of_nat take_bit_nat_eq_self_iff)
  with assms(2) show ?thesis
    by (simp add: cu_def)
qed

lemma fragmentState_no_qmark: "0x3F \<notin> set vs \<Longrightarrow> cu CHR ''?'' \<notin> set (fragmentState vs)"
proof (induction vs)
  case Nil
  then show ?case by simp
next
  case (Cons v vs)
  then show ?case
    using percentEncodeByte_no_qmark of_nat_qmark [of v] by auto
qed

lemma scalar_no_qmark: "c \<noteq> cu CHR ''?'' \<Longrightarrow> scalar c \<noteq> 0x3F"
  by (auto simp: scalar_def cu_def word_unat_eq_iff)

lemma codePoints_no_qmark: "cu CHR ''?'' \<notin> set x \<Longrightarrow> 0x3F \<notin> set (codePoints x)"
  by (induction x rule: codePoints.induct) (auto simp: scalar_no_qmark)

lemma slash_unit:
  "scalar (cu CHR ''/'') = 0x2F" "\<not> isHighSurrogate (cu CHR ''/'')"
  "scalar (cu CHR ''#'') = 0x23" "\<not> isHighSurrogate (cu CHR ''#'')"
  "\<not> inFragmentPercentEncodeSet 0x2F" "(of_nat 0x2F :: 16 word) = cu CHR ''/''"
  by (simp_all add: scalar_def isHighSurrogate_def isLowSurrogate_def cu_def
      inFragmentPercentEncodeSet_def)

lemma locationSetHash_shape:
  assumes "cu CHR ''?'' \<notin> set u"
  shows "\<exists>w. locationSetHash (cu CHR ''/'' # u) = cu CHR ''#'' # cu CHR ''/'' # w
             \<and> cu CHR ''?'' \<notin> set w"
proof -
  have ne: "cu CHR ''/'' \<noteq> cu CHR ''#''"
    by (simp add: cu_def)
  have "0x3F \<notin> set (removeTabNewline (codePoints u))"
    using codePoints_no_qmark [OF assms] by (simp add: removeTabNewline_def)
  then have "cu CHR ''?'' \<notin> set (fragmentState (removeTabNewline (codePoints u)))"
    by (rule fragmentState_no_qmark)
  moreover have "locationSetHash (cu CHR ''/'' # u)
      = cu CHR ''#'' # cu CHR ''/'' # fragmentState (removeTabNewline (codePoints u))"
    using ne
    by (simp add: locationSetHash_def startsWith_def js_simps codePoints_Cons slash_unit
        removeTabNewline_def hashOf_def) (simp add: cu_def)
  ultimately show ?thesis by blast
qed

lemma locationReplace_shape:
  assumes "cu CHR ''?'' \<notin> set u"
  shows "\<exists>w. locationReplace (js ''#'' @ cu CHR ''/'' # u) = cu CHR ''#'' # cu CHR ''/'' # w
             \<and> cu CHR ''?'' \<notin> set w"
proof -
  define t where "t = rev (dropWhile (\<lambda>v. v \<le> 0x20) (rev (codePoints u)))"
  have "set t \<subseteq> set (codePoints u)"
    by (auto simp: t_def dest: set_dropWhileD)
  then have "0x3F \<notin> set (removeTabNewline t)"
    using codePoints_no_qmark [OF assms] by (auto simp: removeTabNewline_def)
  then have q: "cu CHR ''?'' \<notin> set (fragmentState (removeTabNewline t))"
    by (rule fragmentState_no_qmark)
  have c: "codePoints (js ''#'' @ cu CHR ''/'' # u) = 0x23 # 0x2F # codePoints u"
    by (simp add: js_simps codePoints_Cons slash_unit)
  have s: "stripC0ControlOrSpace (0x23 # 0x2F # codePoints u) = 0x23 # 0x2F # t"
    unfolding stripC0ControlOrSpace_def t_def by (rule strip_Cons2) simp_all
  have "locationReplace (js ''#'' @ cu CHR ''/'' # u)
      = cu CHR ''#'' # cu CHR ''/'' # fragmentState (removeTabNewline t)"
    unfolding locationReplace_def c s
    by (simp add: removeTabNewline_def slash_unit hashOf_def js_simps) (simp add: cu_def)
  with q show ?thesis by blast
qed

lemma locationSetHash_safe:
  assumes "fragmentSafe x" and "x = cu CHR ''/'' # u"
  shows "locationSetHash x = cu CHR ''#'' # x"
proof -
  have ne: "cu CHR ''/'' \<noteq> cu CHR ''#''"
    by (simp add: cu_def)
  with assms(2) have "locationSetHash x = hashOf (fragmentState (removeTabNewline (codePoints x)))"
    by (simp add: locationSetHash_def startsWith_def js_simps)
  also have "\<dots> = hashOf x"
    using assms(1) by (simp add: codePoints_safe removeTabNewline_safe fragmentState_safe)
  finally show ?thesis
    using assms(2) by (simp add: hashOf_def js_simps)
qed

lemma locationReplace_safe:
  assumes "fragmentSafe x" and "x = cu CHR ''/'' # u"
  shows "locationReplace (js ''#'' @ x) = cu CHR ''#'' # x"
proof -
  have h: "fragmentSafe (js ''#'' @ x)"
    using assms(1) by (simp add: fragmentSafe_def js_simps cu_def)
  then have c: "codePoints (js ''#'' @ x) = map unat (js ''#'' @ x)"
    by (rule codePoints_safe)
  have "last (js ''#'' @ x) \<in> set (js ''#'' @ x)"
    by (rule last_in_set) (simp add: js_simps)
  with h have l: "\<not> unat (last (js ''#'' @ x)) \<le> 0x20"
    unfolding fragmentSafe_def list_all_iff by (intro safe_unit(5)) blast
  have st: "stripC0ControlOrSpace (map unat (js ''#'' @ x)) = map unat (js ''#'' @ x)"
    unfolding stripC0ControlOrSpace_def
    using l by (intro strip_ends) (auto simp: js_simps cu_def last_map)
  have r: "removeTabNewline (map unat (js ''#'' @ x)) = map unat (js ''#'' @ x)"
    using h by (rule removeTabNewline_safe)
  have m: "map unat (js ''#'' @ x) = 0x23 # map unat x"
    by (simp add: js_simps cu_def)
  have "locationReplace (js ''#'' @ x) = hashOf (fragmentState (map unat x))"
    unfolding locationReplace_def c using st r unfolding m by simp
  also have "\<dots> = hashOf x"
    using assms(1) by (simp only: fragmentState_safe)
  also have "\<dots> = cu CHR ''#'' # x"
    using assms(2) by (simp add: hashOf_def js_simps)
  finally show ?thesis .
qed

lemma writtenHash_shape:
  "\<exists>w. writtenHash rp (normalizePath p) = cu CHR ''#'' # cu CHR ''/'' # w \<and> cu CHR ''?'' \<notin> set w"
proof -
  obtain u where u: "normalizePath p = cu CHR ''/'' # u"
    using normalizePath_slashy [of p] by (auto simp: slashy_def)
  with normalizePath_no_query [of p] have "cu CHR ''?'' \<notin> set u"
    by simp
  then show ?thesis
    unfolding writtenHash_def u
    using locationSetHash_shape [of u] locationReplace_shape [of u] by simp
qed

lemma parseParams_written: "parseParams (writtenHash rp (normalizePath p)) = Inr Map.empty"
proof -
  obtain w where "writtenHash rp (normalizePath p) = cu CHR ''#'' # cu CHR ''/'' # w"
    and "cu CHR ''?'' \<notin> set w"
    using writtenHash_shape by blast
  then have "cu CHR ''?'' \<notin> set (writtenHash rp (normalizePath p))"
    by (simp add: cu_def)
  then show ?thesis
    by (rule parseParams_no_query)
qed

lemma writtenHash_safe:
  assumes "fragmentSafe (normalizePath p)"
  shows "writtenHash rp (normalizePath p) = cu CHR ''#'' # normalizePath p"
proof -
  obtain u where u: "normalizePath p = cu CHR ''/'' # u"
    using normalizePath_slashy [of p] by (auto simp: slashy_def)
  show ?thesis
    unfolding writtenHash_def
    using locationSetHash_safe [OF assms u] locationReplace_safe [OF assms u] by simp
qed

section \<open>The steps of the router\<close>

lemma buildRouteFrom_winHash:
  "buildRouteFrom s (winHash s) =
     (case parseParams (winHash s) of
        Inl e \<Rightarrow> Inl e
      | Inr ps \<Rightarrow>
          Inr \<lparr>path = normalizePath (winHash s),
               segments = toSegments (normalizePath (winHash s)), params = ps\<rparr>)"
  by (simp add: buildRouteFrom_def Let_def)

lemma buildRouteFrom_fields:
  assumes "buildRouteFrom s raw = Inr r"
  shows "\<exists>x. path r = normalizePath x" and "segments r = toSegments (path r)"
  using assms by (auto simp: buildRouteFrom_def Let_def split: sum.splits)

lemma handleRouteChange_eval:
  assumes "location_hash s = Some h" and "parseParams h = Inr ps"
  shows "handleRouteChange s =
     Inr (if isAllowedRoute (normalizePath h)
          then emit \<lparr>path = normalizePath h, segments = toSegments (normalizePath h),
                     params = ps\<rparr> s
          else s\<lparr>location_hash := Some (writtenHash True (normalizePath (defaultRoute s))),
                 debounceTimer := True\<rparr>)"
proof -
  from assms(1) have w: "winHash s = h"
    by (simp add: winHash_def)
  have b: "buildRouteFrom s (winHash s) =
      Inr \<lparr>path = normalizePath h, segments = toSegments (normalizePath h), params = ps\<rparr>"
    unfolding buildRouteFrom_winHash using assms(2) w by simp
  show ?thesis
    unfolding handleRouteChange_def Let_def b using assms(1)
    by (simp add: navigate_def debouncedHandleRouteChange_def writtenHash_def Let_def)
qed

lemma timerFires_eval:
  assumes "debounceTimer s" and "location_hash s = Some h" and "parseParams h = Inr ps"
  shows "timerFires s =
     (if isAllowedRoute (normalizePath h)
      then emit \<lparr>path = normalizePath h, segments = toSegments (normalizePath h),
                 params = ps\<rparr> (s\<lparr>debounceTimer := False\<rparr>)
      else s\<lparr>location_hash := Some (writtenHash True (normalizePath (defaultRoute s))),
             debounceTimer := True\<rparr>)"
proof -
  have "handleRouteChange (s\<lparr>debounceTimer := False\<rparr>) =
     Inr (if isAllowedRoute (normalizePath h)
          then emit \<lparr>path = normalizePath h, segments = toSegments (normalizePath h),
                     params = ps\<rparr> (s\<lparr>debounceTimer := False\<rparr>)
          else s\<lparr>debounceTimer := False,
                 location_hash := Some (writtenHash True (normalizePath (defaultRoute s))),
                 debounceTimer := True\<rparr>)"
    using handleRouteChange_eval [of "s\<lparr>debounceTimer := False\<rparr>" h ps] assms by simp
  with assms(1) show ?thesis
    by (simp add: timerFires_def Let_def)
qed

lemma timerFires_eval_safe:
  assumes "debounceTimer s" and "location_hash s = Some h" and "parseParams h = Inr ps"
    and "fragmentSafe (normalizePath (defaultRoute s))"
  shows "timerFires s =
     (if isAllowedRoute (normalizePath h)
      then emit \<lparr>path = normalizePath h, segments = toSegments (normalizePath h),
                 params = ps\<rparr> (s\<lparr>debounceTimer := False\<rparr>)
      else s\<lparr>location_hash := Some (cu CHR ''#'' # normalizePath (defaultRoute s)),
             debounceTimer := True\<rparr>)"
  unfolding timerFires_eval [OF assms(1,2,3)] writtenHash_safe [OF assms(4)] ..

lemma navigate_eval:
  assumes "location_hash s = Some h"
  shows "navigate p \<lparr>replace = rp, silent = False\<rparr> s =
     s\<lparr>location_hash := Some (writtenHash rp (normalizePath p)), debounceTimer := True\<rparr>"
  using assms
  by (simp add: navigate_def debouncedHandleRouteChange_def writtenHash_def Let_def)

lemma navigate_eval_safe:
  assumes "location_hash s = Some h" and "fragmentSafe (normalizePath p)"
  shows "navigate p \<lparr>replace = rp, silent = False\<rparr> s =
     s\<lparr>location_hash := Some (cu CHR ''#'' # normalizePath p), debounceTimer := True\<rparr>"
  unfolding navigate_eval [OF assms(1)] writtenHash_safe [OF assms(2)] ..

lemma safe_facts:
  "fragmentSafe (js ''/'')"
  "fragmentSafe (js ''/home'')"
  "fragmentSafe (js ''/x'')"
  "fragmentSafe (js ''/basic/network'')"
  by (simp_all add: fragmentSafe_def js_simps cu_def)

lemma initRouter_first:
  "initRouter \<lparr>opt_defaultRoute = None, opt_onRouteChange = cb\<rparr> (initial (Some h)) =
     (initial (Some h))\<lparr>isInitialized := True,
        listeners := (case cb of None \<Rightarrow> [] | Some c \<Rightarrow> [c]),
        hashchangeBound := True, debounceTimer := True\<rparr>"
  by (cases cb)
    (simp_all add: initRouter_def initial_def setDefaultRoute_def onRouteChange_def setAdd_def
      debouncedHandleRouteChange_def Let_def)

section \<open>The invariant of the router\<close>

lemma inv_navigate: "routerInv s \<Longrightarrow> routerInv (navigate p opts s)"
  by (auto simp: routerInv_def navigate_def debouncedHandleRouteChange_def Let_def
      split: option.splits)

lemma inv_emit: "routerInv s \<Longrightarrow> isAllowedRoute (path r) \<Longrightarrow> routerInv (emit r s)"
  by (auto simp: routerInv_def emit_def notify_eq)

lemma inv_handleRouteChange:
  "routerInv s \<Longrightarrow> handleRouteChange s = Inr s' \<Longrightarrow> routerInv s'"
  by (auto simp: handleRouteChange_def Let_def inv_navigate inv_emit
      split: sum.splits if_splits)

lemma inv_timerFires:
  assumes "routerInv s"
  shows "routerInv (timerFires s)"
proof -
  from assms have "routerInv (s\<lparr>debounceTimer := False\<rparr>)"
    by (simp add: routerInv_def)
  with assms show ?thesis
    by (auto simp: timerFires_def Let_def dest: inv_handleRouteChange split: sum.splits)
qed

lemma inv_initRouter: "routerInv s \<Longrightarrow> routerInv (initRouter opts s)"
  by (auto simp: routerInv_def initRouter_def setDefaultRoute_def onRouteChange_def
      debouncedHandleRouteChange_def notify_eq Let_def split: option.splits)

lemma inv_step:
  assumes "routerInv s"
  shows "routerInv (step s ev)"
proof (cases ev)
  case (InitRouter opts)
  with assms show ?thesis by (simp add: inv_initRouter)
next
  case (Navigate p opts)
  with assms show ?thesis by (simp add: inv_navigate)
next
  case TimerFires
  with assms show ?thesis by (simp add: inv_timerFires)
qed (use assms in \<open>auto simp: routerInv_def debouncedHandleRouteChange_def onRouteChange_def
    offRouteChange_def split: option.splits\<close>)

lemma inv_run: "routerInv s \<Longrightarrow> routerInv (run s evs)"
  unfolding run_def by (induction evs arbitrary: s) (simp_all add: inv_step)

lemma inv_initial: "routerInv (initial h)"
  by (simp add: routerInv_def initial_def)

lemma run_status:
  "run (initial (Some (js ''#/status'')))
     [InitRouter \<lparr>opt_defaultRoute = None, opt_onRouteChange = Some (Listener 0 True)\<rparr>,
      TimerFires]
   = \<lparr>defaultRoute = js ''/home'', listeners = [Listener 0 True],
      currentRoute =
        Some \<lparr>path = js ''/status'', segments = [js ''status''], params = Map.empty\<rparr>,
      isInitialized = True, debounceTimer = False, location_hash = Some (js ''#/status''),
      hashchangeBound = True,
      calls = [(Listener 0 True,
                \<lparr>path = js ''/status'', segments = [js ''status''], params = Map.empty\<rparr>)]\<rparr>"
proof -
  have p: "parseParams (js ''#/status'') = Inr Map.empty"
    by (rule parseParams_no_query) (simp add: str_defs)
  define s1 where "s1 = initRouter \<lparr>opt_defaultRoute = None, opt_onRouteChange = Some (Listener 0 True)\<rparr>
      (initial (Some (js ''#/status'')))"
  have s1: "s1 = (initial (Some (js ''#/status'')))\<lparr>isInitialized := True,
        listeners := [Listener 0 True], hashchangeBound := True, debounceTimer := True\<rparr>"
    unfolding s1_def by (simp add: initRouter_first)
  have "timerFires s1 = emit \<lparr>path = js ''/status'', segments = [js ''status''], params = Map.empty\<rparr>
      (s1\<lparr>debounceTimer := False\<rparr>)"
    using timerFires_eval [of s1 "js ''#/status''" Map.empty] p
    by (simp add: s1 initial_def norm_facts allowed_facts segment_facts)
  then show ?thesis
    by (simp add: run_def s1_def [symmetric]) (simp add: s1 emit_def notify_eq initial_def)
qed

text \<open>
  C2: in every state that the router reaches from its initial state by calls of its
  interface, expiries of the debounce timer, \<open>hashchange\<close> events and edits of the
  fragment, the stored current route is absent or allowed (its path equals a whitelist
  entry or starts with the entry followed by a slash), and every route that was sent to
  a listener is allowed.
\<close>

theorem currentRoute_null_or_allowed:
  "(\<forall>r. currentRoute (run (initial h) evs) = Some r \<longrightarrow> allowed_spec (path r))
   \<and> (\<forall>cb r. (cb, r) \<in> set (calls (run (initial h) evs)) \<longrightarrow> allowed_spec (path r))"
  using inv_run [OF inv_initial, of h evs]
  by (simp add: routerInv_def isAllowedRoute_iff)

theorem currentRoute_null_or_allowed_witness:
  "currentRoute (run (initial (Some (js ''#/status'')))
     [InitRouter \<lparr>opt_defaultRoute = None, opt_onRouteChange = Some (Listener 0 True)\<rparr>,
      TimerFires])
   = Some \<lparr>path = js ''/status'', segments = [js ''status''], params = Map.empty\<rparr>
   \<and> (Listener 0 True, \<lparr>path = js ''/status'', segments = [js ''status''], params = Map.empty\<rparr>)
       \<in> set (calls (run (initial (Some (js ''#/status'')))
     [InitRouter \<lparr>opt_defaultRoute = None, opt_onRouteChange = Some (Listener 0 True)\<rparr>,
      TimerFires]))
   \<and> allowed_spec (js ''/status'')"
  using currentRoute_null_or_allowed [of "Some (js ''#/status'')"
      "[InitRouter \<lparr>opt_defaultRoute = None, opt_onRouteChange = Some (Listener 0 True)\<rparr>,
        TimerFires]"]
  by (simp add: run_status)

section \<open>Reading the route before the first resolution\<close>

lemma getRoute_unresolved:
  assumes "currentRoute s = None" and "parseParams (winHash s) = Inr ps"
  shows "getRoute s = Inr \<lparr>path = normalizePath (winHash s),
                            segments = toSegments (normalizePath (winHash s)), params = ps\<rparr>"
  using assms by (simp add: getRoute_def buildRouteFrom_winHash)

lemma getRoute_unresolved_throws:
  assumes "currentRoute s = None" and "parseParams (winHash s) = Inl e"
  shows "getRoute s = Inl e"
  using assms by (simp add: getRoute_def buildRouteFrom_winHash)

lemma nope_facts:
  "normalizePath (js ''#/nope?x=1'') = js ''/nope''"
  "toSegments (js ''/nope'') = [js ''nope'']"
  "parseParams (js ''#/nope?x=1'') = Inr [js ''x'' \<mapsto> js ''1'']"
  "\<not> isAllowedRoute (js ''/nope'')"
  by (simp_all add: normalizePath_def toSegments_def parseParams_def decodeURIComponent_def
      hexDigit_def setParam_def isAllowedRoute_def ROUTE_WHITELIST_def str_defs)

lemma empty_facts:
  "toSegments (js ''/'') = []"
  "parseParams [] = Inr Map.empty"
  by (simp_all add: toSegments_def parseParams_def)

text \<open>
  C10: while no route is stored, \<open>getRoute\<close> returns the parse of the current fragment
  (its normalized path, the segments of that path and the parameters of its query) with
  no whitelist test, and throws when the parse throws. For the fragment \<open>#/nope?x=1\<close>
  that is the route of path \<open>/nope\<close> with the parameter \<open>x = 1\<close>, and for an empty
  fragment the route of path \<open>/\<close> with no segments and no parameters; neither path is
  allowed.
\<close>

theorem getRoute_before_resolution:
  "(currentRoute s = None \<and> parseParams (winHash s) = Inr ps \<longrightarrow>
      getRoute s = Inr \<lparr>path = normalizePath (winHash s),
                        segments = toSegments (normalizePath (winHash s)), params = ps\<rparr>)
   \<and> (currentRoute s = None \<and> parseParams (winHash s) = Inl e \<longrightarrow> getRoute s = Inl e)
   \<and> (currentRoute s = None \<and> winHash s = js ''#/nope?x=1'' \<longrightarrow>
        getRoute s = Inr \<lparr>path = js ''/nope'', segments = [js ''nope''],
                          params = [js ''x'' \<mapsto> js ''1'']\<rparr>)
   \<and> \<not> isAllowedRoute (js ''/nope'')
   \<and> (currentRoute s = None \<and> winHash s = [] \<longrightarrow>
        getRoute s = Inr \<lparr>path = js ''/'', segments = [], params = Map.empty\<rparr>)
   \<and> \<not> isAllowedRoute (js ''/'')"
proof -
  have a: "getRoute s = Inr \<lparr>path = js ''/nope'', segments = [js ''nope''],
                          params = [js ''x'' \<mapsto> js ''1'']\<rparr>"
    if "currentRoute s = None" and w: "winHash s = js ''#/nope?x=1''"
    using getRoute_unresolved [OF that(1), of "[js ''x'' \<mapsto> js ''1'']"]
    unfolding w by (simp add: nope_facts)
  have b: "getRoute s = Inr \<lparr>path = js ''/'', segments = [], params = Map.empty\<rparr>"
    if "currentRoute s = None" and w: "winHash s = []"
    using getRoute_unresolved [OF that(1), of Map.empty]
    unfolding w by (simp add: normalizePath_empty empty_facts)
  show ?thesis
    using getRoute_unresolved [of s ps] getRoute_unresolved_throws [of s e] a b
    by (simp add: nope_facts allowed_facts)
qed

theorem getRoute_before_resolution_witness:
  "currentRoute (initial (Some (js ''#/nope?x=1''))) = None
   \<and> winHash (initial (Some (js ''#/nope?x=1''))) = js ''#/nope?x=1''
   \<and> parseParams (winHash (initial (Some (js ''#/nope?x=1'')))) = Inr [js ''x'' \<mapsto> js ''1'']
   \<and> getRoute (initial (Some (js ''#/nope?x=1'')))
       = Inr \<lparr>path = js ''/nope'', segments = [js ''nope''],
              params = [js ''x'' \<mapsto> js ''1'']\<rparr>
   \<and> \<not> isAllowedRoute (js ''/nope'')"
proof -
  have c: "currentRoute (initial (Some (js ''#/nope?x=1''))) = None"
    and w: "winHash (initial (Some (js ''#/nope?x=1''))) = js ''#/nope?x=1''"
    by (simp_all add: initial_def winHash_def)
  have p: "parseParams (winHash (initial (Some (js ''#/nope?x=1'')))) = Inr [js ''x'' \<mapsto> js ''1'']"
    unfolding w by (rule nope_facts)
  from getRoute_before_resolution [of "initial (Some (js ''#/nope?x=1''))"
      "[js ''x'' \<mapsto> js ''1'']" URIError] c w p
  show ?thesis by blast
qed

section \<open>Navigation with a query string\<close>

lemma params_wifi:
  "parseParams (js ''#/basic/network?tab=wifi'') = Inr [js ''tab'' \<mapsto> js ''wifi'']"
  by (simp add: parseParams_def decodeURIComponent_def hexDigit_def setParam_def str_defs)

lemma norm_wifi: "normalizePath (js ''#/basic/network?tab=wifi'') = js ''/basic/network''"
  by (simp add: normalizePath_def str_defs)

lemma init_state:
  "location_hash (run (initial (Some []))
      [InitRouter \<lparr>opt_defaultRoute = None, opt_onRouteChange = None\<rparr>]) = Some []"
  "hashchangeBound (run (initial (Some []))
      [InitRouter \<lparr>opt_defaultRoute = None, opt_onRouteChange = None\<rparr>])"
  by (simp_all add: run_def initRouter_first) (simp_all add: initial_def)

lemma run_append: "run (run s xs) ys = run s (xs @ ys)"
  by (simp add: run_def)

lemma nav_query_dropped:
  assumes h: "location_hash s = Some h"
  shows "getRoute (run s [Navigate (js ''/basic/network?tab=wifi'') \<lparr>replace = rp, silent = False\<rparr>,
                       TimerFires])
      = Inr \<lparr>path = js ''/basic/network'', segments = [js ''basic'', js ''network''],
             params = Map.empty\<rparr>"
proof -
  define s1 where "s1 = navigate (js ''/basic/network?tab=wifi'') \<lparr>replace = rp, silent = False\<rparr> s"
  have s1: "s1 = s\<lparr>location_hash := Some (cu CHR ''#'' # normalizePath (js ''/basic/network?tab=wifi'')),
                   debounceTimer := True\<rparr>"
    unfolding s1_def using h by (rule navigate_eval_safe) (simp add: norm_facts safe_facts)
  have f1: "debounceTimer s1"
    "location_hash s1 = Some (cu CHR ''#'' # normalizePath (js ''/basic/network?tab=wifi''))"
    by (simp_all add: s1)
  have "timerFires s1 = emit \<lparr>path = js ''/basic/network'', segments = [js ''basic'', js ''network''],
          params = Map.empty\<rparr> (s1\<lparr>debounceTimer := False\<rparr>)"
    unfolding timerFires_eval [OF f1 parseParams_hash_normal] normalizePath_hash_normal
    by (simp add: norm_facts allowed_facts segment_facts)
  moreover have "run s [Navigate (js ''/basic/network?tab=wifi'') \<lparr>replace = rp, silent = False\<rparr>,
                       TimerFires] = timerFires s1"
    by (simp add: run_def s1_def)
  ultimately show ?thesis
    by (simp add: getRoute_def emit_def)
qed

lemma hash_query_kept:
  assumes a: "location_hash s = Some h" "hashchangeBound s"
  shows "getRoute (run s [UserSetsHash (js ''#/basic/network?tab=wifi''), HashChange, TimerFires])
      = Inr \<lparr>path = js ''/basic/network'', segments = [js ''basic'', js ''network''],
             params = [js ''tab'' \<mapsto> js ''wifi'']\<rparr>"
proof -
  define s2 where "s2 = step (step s (UserSetsHash (js ''#/basic/network?tab=wifi''))) HashChange"
  have f2: "debounceTimer s2" "location_hash s2 = Some (js ''#/basic/network?tab=wifi'')"
    using a by (simp_all add: s2_def debouncedHandleRouteChange_def)
  have "timerFires s2 = emit \<lparr>path = js ''/basic/network'', segments = [js ''basic'', js ''network''],
          params = [js ''tab'' \<mapsto> js ''wifi'']\<rparr> (s2\<lparr>debounceTimer := False\<rparr>)"
    unfolding timerFires_eval [OF f2 params_wifi] norm_wifi
    by (simp add: allowed_facts segment_facts)
  moreover have "run s [UserSetsHash (js ''#/basic/network?tab=wifi''), HashChange, TimerFires]
      = timerFires s2"
    by (simp add: run_def s2_def)
  ultimately show ?thesis
    by (simp add: getRoute_def emit_def)
qed

text \<open>
  C3, as the code has it: in a window, after \<open>navigate("/basic/network?tab=wifi")\<close> and
  the expiry of the timer it sets, \<open>getRoute\<close> returns the route of path
  \<open>/basic/network\<close> and segments \<open>basic\<close>, \<open>network\<close> with no parameters: \<open>navigate\<close>
  writes the normalized path, which has lost the query, to the location. The parameter
  \<open>tab = wifi\<close> is in the route when the fragment itself is set to
  \<open>#/basic/network?tab=wifi\<close> and the \<open>hashchange\<close> event is handled.
\<close>

theorem navigate_drops_query:
  "(location_hash s = Some h \<longrightarrow>
      getRoute (run s [Navigate (js ''/basic/network?tab=wifi'') \<lparr>replace = rp, silent = False\<rparr>,
                       TimerFires])
      = Inr \<lparr>path = js ''/basic/network'', segments = [js ''basic'', js ''network''],
             params = Map.empty\<rparr>)
   \<and> (location_hash s = Some h \<and> hashchangeBound s \<longrightarrow>
      getRoute (run s [UserSetsHash (js ''#/basic/network?tab=wifi''), HashChange, TimerFires])
      = Inr \<lparr>path = js ''/basic/network'', segments = [js ''basic'', js ''network''],
             params = [js ''tab'' \<mapsto> js ''wifi'']\<rparr>)"
  using nav_query_dropped [of s h rp] hash_query_kept [of s h] by blast

theorem navigate_drops_query_witness:
  "location_hash (run (initial (Some []))
      [InitRouter \<lparr>opt_defaultRoute = None, opt_onRouteChange = None\<rparr>]) = Some []
   \<and> hashchangeBound (run (initial (Some []))
      [InitRouter \<lparr>opt_defaultRoute = None, opt_onRouteChange = None\<rparr>])
   \<and> getRoute (run (initial (Some []))
      [InitRouter \<lparr>opt_defaultRoute = None, opt_onRouteChange = None\<rparr>,
       Navigate (js ''/basic/network?tab=wifi'') \<lparr>replace = False, silent = False\<rparr>,
       TimerFires])
     = Inr \<lparr>path = js ''/basic/network'', segments = [js ''basic'', js ''network''],
            params = Map.empty\<rparr>
   \<and> getRoute (run (initial (Some []))
      [InitRouter \<lparr>opt_defaultRoute = None, opt_onRouteChange = None\<rparr>,
       UserSetsHash (js ''#/basic/network?tab=wifi''), HashChange, TimerFires])
     = Inr \<lparr>path = js ''/basic/network'', segments = [js ''basic'', js ''network''],
            params = [js ''tab'' \<mapsto> js ''wifi'']\<rparr>"
  using navigate_drops_query [of "run (initial (Some []))
      [InitRouter \<lparr>opt_defaultRoute = None, opt_onRouteChange = None\<rparr>]" "[]" False] init_state
  by (simp add: run_append)

text \<open>
  The claim says that the route after \<open>navigate("/basic/network?tab=wifi")\<close> has the
  parameter \<open>tab = wifi\<close>. On an initialized router in a window it has not.
\<close>

theorem navigate_query_counterexample:
  "getRoute (run (initial (Some []))
      [InitRouter \<lparr>opt_defaultRoute = None, opt_onRouteChange = None\<rparr>,
       Navigate (js ''/basic/network?tab=wifi'') \<lparr>replace = False, silent = False\<rparr>,
       TimerFires])
   \<noteq> Inr \<lparr>path = js ''/basic/network'', segments = [js ''basic'', js ''network''],
          params = [js ''tab'' \<mapsto> js ''wifi'']\<rparr>"
proof -
  have "Map.empty (js ''tab'') \<noteq> [js ''tab'' \<mapsto> js ''wifi''] (js ''tab'')"
    by simp
  then have "(Map.empty :: params) \<noteq> [js ''tab'' \<mapsto> js ''wifi'']"
    by metis
  with nav_query_dropped [OF init_state(1), of False] show ?thesis
    by (simp add: run_append)
qed

section \<open>Redirection to the default route\<close>

text \<open>
  C4, as the code has it: in a window, when the default route is allowed, is its own
  normalization and consists of characters that the window keeps as they are in a
  fragment, and the path that the router reads back from the location after
  \<open>navigate p\<close> is not allowed (the empty string is such a \<open>p\<close>), the first expiry of the
  timer stores nothing and redirects, and the second one stores a route whose path is the
  default route and leaves no timer pending.
\<close>

theorem redirect_to_default:
  assumes "location_hash s = Some h"
    and "isAllowedRoute (defaultRoute s)"
    and "normalizePath (defaultRoute s) = defaultRoute s"
    and "fragmentSafe (defaultRoute s)"
    and "\<not> isAllowedRoute
           (normalizePath (winHash (navigate p \<lparr>replace = rp, silent = False\<rparr> s)))"
  shows "currentRoute (run s [Navigate p \<lparr>replace = rp, silent = False\<rparr>, TimerFires])
      = currentRoute s
    \<and> (\<exists>r. currentRoute (run s [Navigate p \<lparr>replace = rp, silent = False\<rparr>,
                                   TimerFires, TimerFires]) = Some r
          \<and> path r = defaultRoute s)
    \<and> \<not> debounceTimer (run s [Navigate p \<lparr>replace = rp, silent = False\<rparr>,
                               TimerFires, TimerFires])"
proof -
  define d where "d = defaultRoute s"
  define s1 where "s1 = navigate p \<lparr>replace = rp, silent = False\<rparr> s"
  define s2 where "s2 = timerFires s1"
  define s3 where "s3 = timerFires s2"
  have s1: "s1 = s\<lparr>location_hash := Some (writtenHash rp (normalizePath p)),
                   debounceTimer := True\<rparr>"
    unfolding s1_def using assms(1) by (rule navigate_eval)
  have f1: "debounceTimer s1" "location_hash s1 = Some (writtenHash rp (normalizePath p))"
    "defaultRoute s1 = d" "currentRoute s1 = currentRoute s"
    by (simp_all add: s1 d_def)
  have nd: "normalizePath d = d"
    using assms(3) by (simp add: d_def)
  have sd: "fragmentSafe (normalizePath (defaultRoute s1))"
    using assms(4) by (simp add: f1(3) nd) (simp add: d_def)
  have na: "\<not> isAllowedRoute (normalizePath (writtenHash rp (normalizePath p)))"
    using assms(5) unfolding s1_def [symmetric] by (simp add: winHash_def f1(2))
  have "s2 = s1\<lparr>location_hash := Some (cu CHR ''#'' # normalizePath (defaultRoute s1)),
             debounceTimer := True\<rparr>"
    unfolding s2_def timerFires_eval_safe [OF f1(1) f1(2) parseParams_written sd]
    using na by simp
  then have s2: "s2 = s1\<lparr>location_hash := Some (cu CHR ''#'' # d), debounceTimer := True\<rparr>"
    by (simp add: f1(3) nd)
  have f2: "debounceTimer s2" "location_hash s2 = Some (cu CHR ''#'' # normalizePath d)"
    "currentRoute s2 = currentRoute s"
    by (simp_all add: s2 f1 nd)
  have a: "isAllowedRoute (normalizePath (normalizePath d))"
    using assms(2) unfolding d_def [symmetric] by (simp add: nd)
  have "s3 = emit \<lparr>path = normalizePath (normalizePath d),
                    segments = toSegments (normalizePath (normalizePath d)),
                    params = Map.empty\<rparr> (s2\<lparr>debounceTimer := False\<rparr>)"
    unfolding s3_def timerFires_eval [OF f2(1) f2(2) parseParams_hash_normal]
      normalizePath_hash_normal
    using a by simp
  then have s3: "currentRoute s3 = Some \<lparr>path = d, segments = toSegments d, params = Map.empty\<rparr>"
    "\<not> debounceTimer s3"
    by (simp_all add: emit_def nd)
  have r2: "run s [Navigate p \<lparr>replace = rp, silent = False\<rparr>, TimerFires] = s2"
    by (simp add: run_def s2_def s1_def)
  have r3: "run s [Navigate p \<lparr>replace = rp, silent = False\<rparr>, TimerFires, TimerFires] = s3"
    by (simp add: run_def s3_def s2_def s1_def)
  show ?thesis
    unfolding r2 r3 by (simp add: s3 f2 d_def)
qed

theorem redirect_to_default_witness:
  "location_hash (initial (Some (js ''#/status''))) = Some (js ''#/status'')
   \<and> isAllowedRoute (defaultRoute (initial (Some (js ''#/status''))))
   \<and> normalizePath (defaultRoute (initial (Some (js ''#/status''))))
       = defaultRoute (initial (Some (js ''#/status'')))
   \<and> fragmentSafe (defaultRoute (initial (Some (js ''#/status''))))
   \<and> \<not> isAllowedRoute (normalizePath (winHash
         (navigate [] \<lparr>replace = False, silent = False\<rparr> (initial (Some (js ''#/status''))))))
   \<and> (\<exists>r. currentRoute (run (initial (Some (js ''#/status'')))
          [Navigate [] \<lparr>replace = False, silent = False\<rparr>, TimerFires, TimerFires]) = Some r
        \<and> path r = js ''/home'')
   \<and> \<not> debounceTimer (run (initial (Some (js ''#/status'')))
          [Navigate [] \<lparr>replace = False, silent = False\<rparr>, TimerFires, TimerFires])"
proof -
  have e: "defaultRoute (initial (Some (js ''#/status''))) = js ''/home''"
    by (simp add: initial_def)
  have a: "location_hash (initial (Some (js ''#/status''))) = Some (js ''#/status'')"
    by (simp add: initial_def)
  have b: "isAllowedRoute (defaultRoute (initial (Some (js ''#/status''))))"
    unfolding e by (rule allowed_facts)
  have c: "normalizePath (defaultRoute (initial (Some (js ''#/status''))))
       = defaultRoute (initial (Some (js ''#/status'')))"
    unfolding e by (rule norm_facts)
  have f: "fragmentSafe (defaultRoute (initial (Some (js ''#/status''))))"
    unfolding e by (rule safe_facts)
  have sf: "fragmentSafe (normalizePath [])"
    by (simp add: normalizePath_empty safe_facts)
  have w: "winHash (navigate [] \<lparr>replace = False, silent = False\<rparr> (initial (Some (js ''#/status''))))
      = cu CHR ''#'' # normalizePath []"
    unfolding navigate_eval_safe [OF a sf] by (simp add: winHash_def)
  have d: "\<not> isAllowedRoute (normalizePath (winHash
         (navigate [] \<lparr>replace = False, silent = False\<rparr> (initial (Some (js ''#/status''))))))"
    unfolding w normalizePath_hash_normal
    by (simp add: normalizePath_empty norm_facts allowed_facts)
  from redirect_to_default [OF a b c f d] a b c f d show ?thesis
    unfolding e by blast
qed

text \<open>
  The window does not keep every default route as it is. The route \<open>/home/x y\<close> is
  allowed and is its own normalization; the redirect writes it to the location, which
  reads \<open>#/home/x%20y\<close> afterwards, and the route stored at the end has the path
  \<open>/home/x%20y\<close>, not the default route.
\<close>

lemma encoded_facts:
  "normalizePath (js ''/home/x y'') = js ''/home/x y''"
  "isAllowedRoute (js ''/home/x y'')"
  "writtenHash True (js ''/home/x y'') = js ''#/home/x%20y''"
  "normalizePath (js ''#/home/x%20y'') = js ''/home/x%20y''"
  "isAllowedRoute (js ''/home/x%20y'')"
  "toSegments (js ''/home/x%20y'') = [js ''home'', js ''x%20y'']"
  "js ''/home/x y'' \<noteq> []"
  by (simp_all add: normalizePath_def isAllowedRoute_def ROUTE_WHITELIST_def toSegments_def
      writtenHash_def locationReplace_def stripC0ControlOrSpace_def removeTabNewline_def
      scalar_def isHighSurrogate_def isLowSurrogate_def inFragmentPercentEncodeSet_def
      utf8Encode_def percentEncodeByte_def hexUpper_def hashOf_def str_defs)

lemma run_encoded:
  "run (initial (Some []))
      [InitRouter \<lparr>opt_defaultRoute = Some (js ''/home/x y''), opt_onRouteChange = None\<rparr>,
       Navigate [] \<lparr>replace = False, silent = False\<rparr>, TimerFires, TimerFires]
   = \<lparr>defaultRoute = js ''/home/x y'', listeners = [],
      currentRoute = Some \<lparr>path = js ''/home/x%20y'', segments = [js ''home'', js ''x%20y''],
                            params = Map.empty\<rparr>,
      isInitialized = True, debounceTimer = False, location_hash = Some (js ''#/home/x%20y''),
      hashchangeBound = True, calls = []\<rparr>"
proof -
  define s1 where "s1 = initRouter
      \<lparr>opt_defaultRoute = Some (js ''/home/x y''), opt_onRouteChange = None\<rparr> (initial (Some []))"
  have s1: "s1 = \<lparr>defaultRoute = js ''/home/x y'', listeners = [], currentRoute = None,
      isInitialized = True, debounceTimer = True, location_hash = Some [],
      hashchangeBound = True, calls = []\<rparr>"
    unfolding s1_def
    by (simp add: initRouter_def initial_def setDefaultRoute_def debouncedHandleRouteChange_def
        encoded_facts Let_def)
  define s2 where "s2 = navigate [] \<lparr>replace = False, silent = False\<rparr> s1"
  have "location_hash s1 = Some []"
    by (simp add: s1)
  then have "s2 = s1\<lparr>location_hash := Some (cu CHR ''#'' # normalizePath []), debounceTimer := True\<rparr>"
    unfolding s2_def by (rule navigate_eval_safe) (simp add: normalizePath_empty safe_facts)
  then have s2: "s2 = \<lparr>defaultRoute = js ''/home/x y'', listeners = [], currentRoute = None,
      isInitialized = True, debounceTimer = True,
      location_hash = Some (cu CHR ''#'' # normalizePath []),
      hashchangeBound = True, calls = []\<rparr>"
    by (simp add: s1)
  have f2: "debounceTimer s2" "location_hash s2 = Some (cu CHR ''#'' # normalizePath [])"
    by (simp_all add: s2)
  have n: "\<not> isAllowedRoute (normalizePath (normalizePath []))"
    by (simp add: normalizePath_empty norm_facts allowed_facts)
  define s3 where "s3 = timerFires s2"
  have "s3 = s2\<lparr>location_hash := Some (writtenHash True (normalizePath (defaultRoute s2))),
             debounceTimer := True\<rparr>"
    unfolding s3_def timerFires_eval [OF f2 parseParams_hash_normal] normalizePath_hash_normal
    using n by simp
  then have s3: "s3 = \<lparr>defaultRoute = js ''/home/x y'', listeners = [], currentRoute = None,
      isInitialized = True, debounceTimer = True, location_hash = Some (js ''#/home/x%20y''),
      hashchangeBound = True, calls = []\<rparr>"
    by (simp add: s2 encoded_facts)
  have f3: "debounceTimer s3" "location_hash s3 = Some (js ''#/home/x%20y'')"
    by (simp_all add: s3)
  have p: "parseParams (js ''#/home/x%20y'') = Inr Map.empty"
    by (rule parseParams_no_query) (simp add: str_defs)
  have "timerFires s3 = emit \<lparr>path = js ''/home/x%20y'', segments = [js ''home'', js ''x%20y''],
                            params = Map.empty\<rparr> (s3\<lparr>debounceTimer := False\<rparr>)"
    unfolding timerFires_eval [OF f3 p] by (simp add: encoded_facts)
  moreover have "run (initial (Some []))
      [InitRouter \<lparr>opt_defaultRoute = Some (js ''/home/x y''), opt_onRouteChange = None\<rparr>,
       Navigate [] \<lparr>replace = False, silent = False\<rparr>, TimerFires, TimerFires] = timerFires s3"
    by (simp add: run_def s3_def s2_def s1_def)
  ultimately show ?thesis
    by (simp add: s3 emit_def)
qed

theorem redirect_encoded_counterexample:
  "isAllowedRoute (js ''/home/x y'')
   \<and> defaultRoute (run (initial (Some []))
      [InitRouter \<lparr>opt_defaultRoute = Some (js ''/home/x y''), opt_onRouteChange = None\<rparr>,
       Navigate [] \<lparr>replace = False, silent = False\<rparr>, TimerFires, TimerFires])
      = js ''/home/x y''
   \<and> \<not> debounceTimer (run (initial (Some []))
      [InitRouter \<lparr>opt_defaultRoute = Some (js ''/home/x y''), opt_onRouteChange = None\<rparr>,
       Navigate [] \<lparr>replace = False, silent = False\<rparr>, TimerFires, TimerFires])
   \<and> currentRoute (run (initial (Some []))
      [InitRouter \<lparr>opt_defaultRoute = Some (js ''/home/x y''), opt_onRouteChange = None\<rparr>,
       Navigate [] \<lparr>replace = False, silent = False\<rparr>, TimerFires, TimerFires])
      = Some \<lparr>path = js ''/home/x%20y'', segments = [js ''home'', js ''x%20y''],
              params = Map.empty\<rparr>
   \<and> js ''/home/x%20y'' \<noteq> js ''/home/x y''"
  unfolding run_encoded by (simp add: encoded_facts) (simp add: js_simps cu_def)

text \<open>
  Nor does \<open>initRouter\<close> test the default route it is given. With the default route
  \<open>/x\<close>, which is not allowed, the state after the first redirect has a timer pending and
  no current route, and an expiry of the timer gives the same state again: the redirect
  never settles.
\<close>

lemma run_loop:
  "run (initial (Some []))
      [InitRouter \<lparr>opt_defaultRoute = Some (js ''/x''), opt_onRouteChange = None\<rparr>,
       Navigate [] \<lparr>replace = False, silent = False\<rparr>, TimerFires]
   = \<lparr>defaultRoute = js ''/x'', listeners = [], currentRoute = None,
      isInitialized = True, debounceTimer = True, location_hash = Some (js ''#/x''),
      hashchangeBound = True, calls = []\<rparr>"
proof -
  define s1 where "s1 = initRouter \<lparr>opt_defaultRoute = Some (js ''/x''), opt_onRouteChange = None\<rparr>
      (initial (Some []))"
  have nx: "js ''/x'' \<noteq> []"
    by (simp add: js_simps)
  have s1: "s1 = \<lparr>defaultRoute = js ''/x'', listeners = [], currentRoute = None,
      isInitialized = True, debounceTimer = True, location_hash = Some [],
      hashchangeBound = True, calls = []\<rparr>"
    unfolding s1_def
    by (simp add: initRouter_def initial_def setDefaultRoute_def debouncedHandleRouteChange_def
        norm_facts nx Let_def)
  define s2 where "s2 = navigate [] \<lparr>replace = False, silent = False\<rparr> s1"
  have "location_hash s1 = Some []"
    by (simp add: s1)
  then have "s2 = s1\<lparr>location_hash := Some (cu CHR ''#'' # normalizePath []), debounceTimer := True\<rparr>"
    unfolding s2_def by (rule navigate_eval_safe) (simp add: normalizePath_empty safe_facts)
  then have s2: "s2 = \<lparr>defaultRoute = js ''/x'', listeners = [], currentRoute = None,
      isInitialized = True, debounceTimer = True,
      location_hash = Some (cu CHR ''#'' # normalizePath []),
      hashchangeBound = True, calls = []\<rparr>"
    by (simp add: s1)
  have f2: "debounceTimer s2" "location_hash s2 = Some (cu CHR ''#'' # normalizePath [])"
    by (simp_all add: s2)
  have n: "\<not> isAllowedRoute (normalizePath (normalizePath []))"
    by (simp add: normalizePath_empty norm_facts allowed_facts)
  have sx: "fragmentSafe (normalizePath (defaultRoute s2))"
    by (simp add: s2 norm_facts safe_facts)
  have "timerFires s2 = s2\<lparr>location_hash := Some (cu CHR ''#'' # normalizePath (defaultRoute s2)),
             debounceTimer := True\<rparr>"
    unfolding timerFires_eval_safe [OF f2 parseParams_hash_normal sx] normalizePath_hash_normal
    using n by simp
  then have "timerFires s2 = \<lparr>defaultRoute = js ''/x'', listeners = [], currentRoute = None,
      isInitialized = True, debounceTimer = True, location_hash = Some (js ''#/x''),
      hashchangeBound = True, calls = []\<rparr>"
    by (simp add: s2 norm_facts js_Cons_fold)
  then show ?thesis
    by (simp add: run_def s1_def [symmetric] s2_def [symmetric])
qed

lemma redirect_loops_disallowed_default:
  "isInitialized (run (initial (Some []))
      [InitRouter \<lparr>opt_defaultRoute = Some (js ''/x''), opt_onRouteChange = None\<rparr>,
       Navigate [] \<lparr>replace = False, silent = False\<rparr>, TimerFires])
   \<and> defaultRoute (run (initial (Some []))
      [InitRouter \<lparr>opt_defaultRoute = Some (js ''/x''), opt_onRouteChange = None\<rparr>,
       Navigate [] \<lparr>replace = False, silent = False\<rparr>, TimerFires]) = js ''/x''
   \<and> currentRoute (run (initial (Some []))
      [InitRouter \<lparr>opt_defaultRoute = Some (js ''/x''), opt_onRouteChange = None\<rparr>,
       Navigate [] \<lparr>replace = False, silent = False\<rparr>, TimerFires]) = None
   \<and> debounceTimer (run (initial (Some []))
      [InitRouter \<lparr>opt_defaultRoute = Some (js ''/x''), opt_onRouteChange = None\<rparr>,
       Navigate [] \<lparr>replace = False, silent = False\<rparr>, TimerFires])
   \<and> timerFires (run (initial (Some []))
      [InitRouter \<lparr>opt_defaultRoute = Some (js ''/x''), opt_onRouteChange = None\<rparr>,
       Navigate [] \<lparr>replace = False, silent = False\<rparr>, TimerFires])
      = run (initial (Some []))
      [InitRouter \<lparr>opt_defaultRoute = Some (js ''/x''), opt_onRouteChange = None\<rparr>,
       Navigate [] \<lparr>replace = False, silent = False\<rparr>, TimerFires]"
proof -
  define s where "s = \<lparr>defaultRoute = js ''/x'', listeners = [], currentRoute = None,
      isInitialized = True, debounceTimer = True, location_hash = Some (js ''#/x''),
      hashchangeBound = True, calls = []\<rparr>"
  have f: "debounceTimer s" "location_hash s = Some (cu CHR ''#'' # normalizePath (js ''/x''))"
    by (simp_all add: s_def norm_facts js_Cons_fold)
  have n: "\<not> isAllowedRoute (normalizePath (normalizePath (js ''/x'')))"
    by (simp add: norm_facts allowed_facts)
  have sx: "fragmentSafe (normalizePath (defaultRoute s))"
    by (simp add: s_def norm_facts safe_facts)
  have "timerFires s = s\<lparr>location_hash := Some (cu CHR ''#'' # normalizePath (defaultRoute s)),
             debounceTimer := True\<rparr>"
    unfolding timerFires_eval_safe [OF f parseParams_hash_normal sx] normalizePath_hash_normal
    using n by simp
  then have "timerFires s = s"
    by (simp add: s_def norm_facts js_Cons_fold)
  then show ?thesis
    unfolding run_loop s_def [symmetric] by (simp add: s_def)
qed

section \<open>The view composer\<close>

lemma split_tl_nonempty:
  "\<not> sublist [sep, sep] u \<Longrightarrow> u \<noteq> [] \<Longrightarrow> last u \<noteq> sep \<Longrightarrow> [] \<notin> set (tl (split u sep))"
proof (induction u)
  case Nil
  then show ?case by simp
next
  case (Cons c cs)
  show ?case
  proof (cases "cs = []")
    case True
    with Cons.prems show ?thesis by simp
  next
    case False
    from Cons.prems(1) have nd: "\<not> sublist [sep, sep] cs"
      by (auto simp: sublist_Cons_right)
    from Cons.prems(3) False have "last cs \<noteq> sep" by simp
    with Cons.IH nd False have ih: "[] \<notin> set (tl (split cs sep))" by simp
    obtain p ps where sp: "split cs sep = p # ps"
      by (cases "split cs sep") auto
    show ?thesis
    proof (cases "c = sep")
      case True
      from False obtain c' cs' where cs: "cs = c' # cs'" by (cases cs) auto
      with True Cons.prems(1) have "c' \<noteq> sep"
        by (auto simp: sublist_Cons_right)
      with cs have "hd (split cs sep) \<noteq> []"
        unfolding hd_split by simp
      with True ih sp show ?thesis by auto
    next
      case False
      with ih sp show ?thesis by auto
    qed
  qed
qed

lemma split_slashy:
  assumes "slashy p" and "p \<noteq> js ''/''" and "\<not> endsWith p (js ''/'')"
  shows "split p (cu CHR ''/'') = [] # toSegments p" and "[] \<notin> set (toSegments p)"
proof -
  from assms(1) obtain u where p: "p = cu CHR ''/'' # u"
    by (auto simp: slashy_def)
  from assms(1) have nd: "\<not> sublist [cu CHR ''/'', cu CHR ''/''] p"
    by (simp add: slashy_def)
  from assms(3) p have l: "last p \<noteq> cu CHR ''/''"
    by (simp add: endsWith1 js_simps)
  from p have "p \<noteq> []" by simp
  with nd l have ne: "[] \<notin> set (tl (split p (cu CHR ''/'')))"
    using split_tl_nonempty [of "cu CHR ''/''" p] by simp
  from p have sp: "split p (cu CHR ''/'') = [] # split u (cu CHR ''/'')"
    by simp
  with ne have "filter (\<lambda>x. x \<noteq> []) (split p (cu CHR ''/'')) = split u (cu CHR ''/'')"
    by (auto simp: filter_id_conv)
  with assms(2) p have ts: "toSegments p = split u (cu CHR ''/'')"
    by (simp add: toSegments_def)
  with sp show "split p (cu CHR ''/'') = [] # toSegments p" by simp
  from ne sp ts show "[] \<notin> set (toSegments p)" by simp
qed

lemma sub_of_segments:
  assumes "buildRouteFrom s raw = Inr r" and "path r \<noteq> js ''/''"
  shows "(case drop 2 (split (path r) (cu CHR ''/'')) of
            [] \<Rightarrow> js ''preferences''
          | x # xs \<Rightarrow> if x \<noteq> [] then x else js ''preferences'')
       = (case segments r of a # x # xs \<Rightarrow> x | _ \<Rightarrow> js ''preferences'')"
proof -
  from assms(1) obtain x where x: "path r = normalizePath x"
    and sg: "segments r = toSegments (path r)"
    using buildRouteFrom_fields by blast
  have "slashy (path r)" and "\<not> endsWith (path r) (js ''/'')"
    using x normalizePath_slashy [of x] normalizePath_last [of x] assms(2) by simp_all
  with assms(2) have "split (path r) (cu CHR ''/'') = [] # segments r"
    and "[] \<notin> set (segments r)"
    using split_slashy [of "path r"] sg by simp_all
  then show ?thesis
    by (cases "segments r" rule: list.exhaust; simp split: list.splits) auto
qed

lemmas page_defs = pageFor_def startsWith_def prefix_def js_simps cu_def Let_def

lemma renderRoute_pageFor: "getRoute s = Inr r \<Longrightarrow> renderRoute s = Inr (pageFor r)"
  by (simp add: renderRoute_def)

lemma pageFor_home: "path r = js ''/home'' \<Longrightarrow> pageFor r = HomePage"
  by (simp add: page_defs)

lemma pageFor_status:
  "path r = js ''/status'' \<or> startsWith (path r) (js ''/status/'') \<Longrightarrow> pageFor r = StatusPage"
  by (auto simp: page_defs)

lemma pageFor_basic:
  "path r = js ''/basic'' \<or> startsWith (path r) (js ''/basic/'') \<Longrightarrow> pageFor r = BasicSettingsPage"
  by (auto simp: page_defs)

lemma pageFor_advanced:
  "path r = js ''/advanced'' \<or> startsWith (path r) (js ''/advanced/'')
   \<Longrightarrow> pageFor r = AdvancedSettingsPage"
  by (auto simp: page_defs)

lemma pageFor_management:
  "path r = js ''/management'' \<or> startsWith (path r) (js ''/management/'')
   \<Longrightarrow> pageFor r = ManagementPage"
  by (auto simp: page_defs)

lemma pageFor_application:
  "path r = js ''/application'' \<or> startsWith (path r) (js ''/application/'')
   \<Longrightarrow> pageFor r = ApplicationPage ((params r)(js ''sub'' \<mapsto>
         (case drop 2 (split (path r) (cu CHR ''/'')) of
            [] \<Rightarrow> js ''preferences''
          | x # xs \<Rightarrow> if x \<noteq> [] then x else js ''preferences'')))"
  by (auto simp: page_defs)

lemma pageFor_notFound:
  "path r \<noteq> [] \<Longrightarrow> path r \<noteq> js ''/home''
   \<Longrightarrow> \<forall>b \<in> set [js ''/status'', js ''/basic'', js ''/advanced'', js ''/management'',
                    js ''/application'']. path r \<noteq> b \<and> \<not> startsWith (path r) (b @ js ''/'')
   \<Longrightarrow> pageFor r = NotFoundPage"
  by (simp add: pageFor_def js_simps Let_def)

text \<open>
  C5, as the code has it: the path \<open>/home\<close> itself selects the home page; for each of
  \<open>/status\<close>, \<open>/basic\<close>, \<open>/advanced\<close>, \<open>/management\<close> and \<open>/application\<close>, a path equal
  to the prefix or starting with the prefix and a slash selects that page; for a route
  built by the router under \<open>/application\<close>, the page is called with the parameters of
  the route and \<open>sub\<close>, the second segment of the path, or \<open>preferences\<close> when there is
  none; a path matching none of these selects the not-found page.
\<close>

theorem pageFor_table:
  "(path r = js ''/home'' \<longrightarrow> pageFor r = HomePage)
   \<and> (path r = js ''/status'' \<or> startsWith (path r) (js ''/status/'')
        \<longrightarrow> pageFor r = StatusPage)
   \<and> (path r = js ''/basic'' \<or> startsWith (path r) (js ''/basic/'')
        \<longrightarrow> pageFor r = BasicSettingsPage)
   \<and> (path r = js ''/advanced'' \<or> startsWith (path r) (js ''/advanced/'')
        \<longrightarrow> pageFor r = AdvancedSettingsPage)
   \<and> (path r = js ''/management'' \<or> startsWith (path r) (js ''/management/'')
        \<longrightarrow> pageFor r = ManagementPage)
   \<and> (buildRouteFrom s raw = Inr r
        \<and> (path r = js ''/application'' \<or> startsWith (path r) (js ''/application/''))
        \<longrightarrow> pageFor r = ApplicationPage ((params r)(js ''sub'' \<mapsto>
              (case segments r of a # x # xs \<Rightarrow> x | _ \<Rightarrow> js ''preferences''))))
   \<and> (path r \<noteq> [] \<and> path r \<noteq> js ''/home''
        \<and> (\<forall>b \<in> set [js ''/status'', js ''/basic'', js ''/advanced'', js ''/management'',
                        js ''/application''].
              path r \<noteq> b \<and> \<not> startsWith (path r) (b @ js ''/''))
        \<longrightarrow> pageFor r = NotFoundPage)"
proof -
  have app: "pageFor r = ApplicationPage ((params r)(js ''sub'' \<mapsto>
              (case segments r of a # x # xs \<Rightarrow> x | _ \<Rightarrow> js ''preferences'')))"
    if b: "buildRouteFrom s raw = Inr r"
      and p: "path r = js ''/application'' \<or> startsWith (path r) (js ''/application/'')"
  proof -
    from p have "path r \<noteq> js ''/''"
      by (auto simp: startsWith_def js_simps cu_def)
    with b show ?thesis
      using pageFor_application [OF p] sub_of_segments [of s raw r] by simp
  qed
  show ?thesis
    using pageFor_home [of r] pageFor_status [of r] pageFor_basic [of r] pageFor_advanced [of r]
      pageFor_management [of r] pageFor_notFound [of r] app
    by blast
qed

lemma build_updates:
  "buildRouteFrom s (js ''#/application/updates?tab=x'') =
     Inr \<lparr>path = js ''/application/updates'', segments = [js ''application'', js ''updates''],
          params = [js ''tab'' \<mapsto> js ''x'']\<rparr>"
proof -
  have n: "normalizePath (js ''#/application/updates?tab=x'') = js ''/application/updates''"
    by (simp add: normalizePath_def str_defs)
  have p: "parseParams (js ''#/application/updates?tab=x'') = Inr [js ''tab'' \<mapsto> js ''x'']"
    by (simp add: parseParams_def decodeURIComponent_def hexDigit_def setParam_def str_defs)
  have t: "toSegments (js ''/application/updates'') = [js ''application'', js ''updates'']"
    by (simp add: toSegments_def str_defs)
  have ne: "js ''#/application/updates?tab=x'' \<noteq> []"
    by (simp add: js_simps)
  show ?thesis
    by (simp add: buildRouteFrom_def Let_def n p t ne)
qed

theorem pageFor_table_witness:
  "buildRouteFrom (initial None) (js ''#/application/updates?tab=x'') =
     Inr \<lparr>path = js ''/application/updates'', segments = [js ''application'', js ''updates''],
          params = [js ''tab'' \<mapsto> js ''x'']\<rparr>
   \<and> startsWith (js ''/application/updates'') (js ''/application/'')
   \<and> pageFor \<lparr>path = js ''/application/updates'', segments = [js ''application'', js ''updates''],
          params = [js ''tab'' \<mapsto> js ''x'']\<rparr>
       = ApplicationPage [js ''tab'' \<mapsto> js ''x'', js ''sub'' \<mapsto> js ''updates'']"
proof -
  have sw: "startsWith (js ''/application/updates'') (js ''/application/'')"
    by (simp add: startsWith_def js_simps)
  from pageFor_table [of "\<lparr>path = js ''/application/updates'',
          segments = [js ''application'', js ''updates''],
          params = [js ''tab'' \<mapsto> js ''x'']\<rparr>" "initial None" "js ''#/application/updates?tab=x''"]
    build_updates [of "initial None"] sw
  show ?thesis by simp
qed

text \<open>
  The claim gives \<open>/home\<close> the same prefix rule as the other entries. The path
  \<open>/home/x\<close> starts with \<open>/home\<close> and a slash, and the router allows it, but the test for
  the home page is an equality: the not-found page is selected.
\<close>

theorem home_subroute_counterexample:
  "startsWith (js ''/home/x'') (js ''/home'' @ js ''/'')
   \<and> isAllowedRoute (js ''/home/x'')
   \<and> pageFor \<lparr>path = js ''/home/x'', segments = [js ''home'', js ''x''], params = Map.empty\<rparr>
       = NotFoundPage"
  by (simp add: pageFor_def isAllowedRoute_def ROUTE_WHITELIST_def startsWith_def js_simps
      cu_def Let_def)

section \<open>The translation registry\<close>

lemma dict_en: "getProperty dictionaries (js ''en'') = en"
  by (simp add: getProperty_def dictionaries_def js_simps cu_def)

lemma dict_es: "getProperty dictionaries (js ''es'') = es"
  by (simp add: getProperty_def dictionaries_def js_simps cu_def)

lemma dict_fr: "getProperty dictionaries (js ''fr'') = Undefined"
  by (simp add: getProperty_def dictionaries_def Object_prototype_keys_def js_simps cu_def)

lemma truthy_dicts: "truthy en" "truthy es"
  by (simp_all add: en_def es_def)

lemma t_never_undefined_aux: "t host s key vars \<noteq> Undefined"
  by (auto simp: t_def Let_def split: jsval.splits)

lemma t_resolve_aux:
  assumes "getProperty dictionaries (currentLang s) = d" and "truthy d"
  shows "t host s key None =
     (if pathGet host d key \<noteq> Undefined then pathGet host d key
      else if pathGet host en key \<noteq> Undefined then pathGet host en key
      else Str key)"
  using assms by (auto simp: t_def Let_def dict_en interpolate_def split: jsval.splits)

lemma split_key10:
  "split (js ''navigation.application.10'') (cu CHR ''.'')
    = [js ''navigation'', js ''application'', js ''10'']"
  by (simp add: js_simps cu_def)

lemma es_navigation: "ownProperty host es (js ''navigation'') = Some es_navigation"
  by (simp add: es_def js_simps cu_def)

lemma en_navigation: "ownProperty host en (js ''navigation'') = Some en_navigation"
  by (simp add: en_def js_simps cu_def)

lemma es_application: "ownProperty host es_navigation (js ''application'')
    = Some (Str (js ''Aplicaci'' @ [0xF3] @ js ''n''))"
  by (simp add: es_navigation_def js_simps cu_def)

lemma en_application: "ownProperty host en_navigation (js ''application'')
    = Some (Str (js ''Application''))"
  by (simp add: en_navigation_def js_simps cu_def)

lemma index10: "arrayIndex (js ''10'') = Some 10" "js ''10'' \<noteq> js ''length''"
  by (simp_all add: arrayIndex_def js_simps cu_def)

lemma pathGet_es_key10: "pathGet host es (js ''navigation.application.10'') = Undefined"
  by (simp add: pathGet_def split_key10 truthy_dicts es_navigation es_application index10)
    (simp add: es_navigation_def js_simps)

lemma pathGet_en_key10: "pathGet host en (js ''navigation.application.10'') = Str (js ''n'')"
  by (simp add: pathGet_def split_key10 truthy_dicts en_navigation en_application index10)
    (simp add: en_navigation_def js_simps)

lemma split_app: "split (js ''app'') (cu CHR ''.'') = [js ''app'']"
  by (simp add: js_simps cu_def)

lemma en_app_own: "ownProperty host en (js ''app'') = Some en_app"
  by (simp add: en_def js_simps cu_def)

text \<open>
  C7, as the code has it: \<open>t(key)\<close> is never \<open>undefined\<close>. While the current language is
  \<open>en\<close> or \<open>es\<close> it is the value that the key resolves to in the dictionary of that
  language; otherwise the value it resolves to in the English dictionary; otherwise the
  key itself. The value is returned as it is, whether it is a string or not.
\<close>

theorem t_resolution:
  "t host s key None \<noteq> Undefined
   \<and> (currentLang s = js ''en'' \<longrightarrow>
        t host s key None =
          (if pathGet host en key \<noteq> Undefined then pathGet host en key else Str key))
   \<and> (currentLang s = js ''es'' \<longrightarrow>
        t host s key None =
          (if pathGet host es key \<noteq> Undefined then pathGet host es key
           else if pathGet host en key \<noteq> Undefined then pathGet host en key
           else Str key))"
  using t_never_undefined_aux [of host s key None]
    t_resolve_aux [of s en host key] t_resolve_aux [of s es host key]
  by (simp add: dict_en dict_es truthy_dicts)

theorem t_resolution_witness:
  "currentLang ((i18n0 Map.empty None)\<lparr>currentLang := js ''es''\<rparr>) = js ''es''
   \<and> pathGet (\<lambda>k p. None) es (js ''navigation.application.10'') = Undefined
   \<and> pathGet (\<lambda>k p. None) en (js ''navigation.application.10'') = Str (js ''n'')
   \<and> t (\<lambda>k p. None) ((i18n0 Map.empty None)\<lparr>currentLang := js ''es''\<rparr>)
        (js ''navigation.application.10'') None = Str (js ''n'')"
  using t_resolution [of "\<lambda>k p. None" "(i18n0 Map.empty None)\<lparr>currentLang := js ''es''\<rparr>"
      "js ''navigation.application.10''"]
  by (simp add: pathGet_es_key10 pathGet_en_key10)

text \<open>
  The claim says that the result is a string. The key \<open>app\<close> resolves to a nested
  object, and \<open>t\<close> returns that object.
\<close>

theorem t_returns_object_counterexample:
  "t (\<lambda>k p. None) (i18n0 Map.empty None) (js ''app'') None
     = Obj [(js ''title'', Str (js ''User Dashboard''))]"
proof -
  have "pathGet (\<lambda>k p. None) en (js ''app'') = en_app"
    by (simp add: pathGet_def split_app truthy_dicts en_app_own)
  moreover have "currentLang (i18n0 Map.empty None) = js ''en''"
    by (simp add: i18n0_def)
  ultimately show ?thesis
    using t_resolve_aux [of "i18n0 Map.empty None" en "\<lambda>k p. None" "js ''app''"]
    by (simp add: dict_en truthy_dicts en_app_def)
qed

lemma inherited_constructor:
  "map_of dictionaries (js ''constructor'') = None"
  "getProperty dictionaries (js ''constructor'') = Host (js ''constructor'')"
  by (simp_all add: getProperty_def dictionaries_def Object_prototype_keys_def js_simps cu_def)

lemma setLanguage_unknown:
  "getProperty dictionaries lang = Undefined \<Longrightarrow> setLanguage lang s = s"
  by (simp add: setLanguage_def)

text \<open>
  C8: the claim is that \<open>setLanguage\<close> with a code that is not a dictionary changes
  nothing, and that the current language is always a key of \<open>dictionaries\<close>. The test
  \<open>dictionaries[lang]\<close> also finds what the object inherits: \<open>constructor\<close> is no key of
  \<open>dictionaries\<close>, yet \<open>setLanguage("constructor")\<close> makes it the current language, stores
  it and notifies the listeners, and \<open>initI18n\<close> accepts it from the store.
\<close>

theorem setLanguage_inherited_key:
  "map_of dictionaries (js ''constructor'') = None
   \<and> currentLang (setLanguage (js ''constructor'')
        (onLanguageChange (Listener 0 False) (initI18n True None (i18n0 Map.empty None))))
      = js ''constructor''
   \<and> wrapperItems (setLanguage (js ''constructor'')
        (onLanguageChange (Listener 0 False) (initI18n True None (i18n0 Map.empty None))))
        storageKey = Some (js ''constructor'')
   \<and> langCalls (setLanguage (js ''constructor'')
        (onLanguageChange (Listener 0 False) (initI18n True None (i18n0 Map.empty None))))
      = [(Listener 0 False, js ''constructor'')]
   \<and> currentLang (initI18n True None (i18n0 [storageKey \<mapsto> js ''constructor''] None))
      = js ''constructor''"
proof -
  have ne: "js ''constructor'' \<noteq> []"
    by (simp add: js_simps)
  define s0 where "s0 = onLanguageChange (Listener 0 False) (initI18n True None (i18n0 Map.empty None))"
  have s0: "storage s0 = Some Wrapper" "langListeners s0 = [Listener 0 False]" "langCalls s0 = []"
    by (simp_all add: s0_def onLanguageChange_def initI18n_def i18n0_def getItem_def setItem_def
        emitLanguageChange_def setAdd_def Let_def)
  have a: "setLanguage (js ''constructor'') s0 =
      s0\<lparr>currentLang := js ''constructor'',
         wrapperItems := (wrapperItems s0)(storageKey \<mapsto> js ''constructor''),
         langCalls := [(Listener 0 False, js ''constructor'')]\<rparr>"
    by (simp add: setLanguage_def inherited_constructor s0 setItem_def emitLanguageChange_def
        notify_eq Let_def)
  have b: "currentLang (initI18n True None (i18n0 [storageKey \<mapsto> js ''constructor''] None))
      = js ''constructor''"
    by (simp add: initI18n_def i18n0_def getItem_def inherited_constructor ne
        emitLanguageChange_def Let_def)
  show ?thesis
    unfolding s0_def [symmetric] a using b by (simp add: inherited_constructor)
qed

end
